theory Spec2Isabelle
  imports Complex_Main "HOL-Library.AList" "HOL-Library.Multiset"
begin

section \<open>The recommendations handler (handlers/recommendations.py)\<close>

text \<open>
  A shallow embedding of \<^verbatim>\<open>calculate_user_similarity\<close>,
  \<^verbatim>\<open>generate_collaborative_recommendations\<close> and
  \<^verbatim>\<open>generate_content_recommendations\<close>.

  What the Python functions get from outside is a parameter of the model:
  \<^item> the rows of the data store (\<^verbatim>\<open>load_user_data\<close> reads SQLite): the population
    is a list of users, the lookup of one user a function from the id to a list of rows;
  \<^item> the randomness source of \<^verbatim>\<open>random.sample\<close>: a function \<open>rng\<close> whose \<open>i\<close>-th
    value, reduced modulo the bound, is the result of the \<open>i\<close>-th draw;
  \<^item> the arithmetic of Python's \<^verbatim>\<open>float\<close>: a float is a real number, and every
    operation is the exact operation followed by a rounding function \<open>rnd\<close>; the
    builtin \<^verbatim>\<open>float(s)\<close> is a function from strings to \<open>real option\<close> (\<open>None\<close>
    is the \<^verbatim>\<open>ValueError\<close> of a malformed literal), and \<^verbatim>\<open>x ** 0.5\<close>, the
    \<^verbatim>\<open>pow\<close> of the C library, is a function \<open>pow_half\<close>. The results are taken to
    stay in the range of the normal doubles: overflow (infinities, NaN, the
    \<^verbatim>\<open>OverflowError\<close> of \<^verbatim>\<open>**\<close>) and underflow are outside the model;
  \<^item> the order in which Python iterates a set, which the language does not fix: the
    order of the shared categories is a function \<open>set_order\<close> of the key lists of
    the two dicts.
\<close>

subsection \<open>Errors and float arithmetic\<close>

datatype py_error = ValueError | KeyError | ZeroDivisionError

record float_sem =
  float_of :: "string \<Rightarrow> real option"
  rnd :: "real \<Rightarrow> real"
  pow_half :: "real \<Rightarrow> real"
  set_order :: "string list \<Rightarrow> string list \<Rightarrow> string list"

text \<open>A float literal of the source, such as \<^verbatim>\<open>0.1\<close>.\<close>

definition flit :: "float_sem \<Rightarrow> real \<Rightarrow> real" where
  "flit fs q = rnd fs q"

definition fadd :: "float_sem \<Rightarrow> real \<Rightarrow> real \<Rightarrow> real" where
  "fadd fs a b = rnd fs (a + b)"

definition fmul :: "float_sem \<Rightarrow> real \<Rightarrow> real \<Rightarrow> real" where
  "fmul fs a b = rnd fs (a * b)"

text \<open>\<^verbatim>\<open>a / b\<close> raises \<^verbatim>\<open>ZeroDivisionError\<close> on a zero divisor.\<close>

definition fdiv :: "float_sem \<Rightarrow> real \<Rightarrow> real \<Rightarrow> py_error + real" where
  "fdiv fs a b = (if b = 0 then Inl ZeroDivisionError else Inr (rnd fs (a / b)))"

text \<open>\<^verbatim>\<open>a ** 2\<close>: the exact square, rounded; \<^verbatim>\<open>a ** 0.5\<close>.\<close>

definition fpow2 :: "float_sem \<Rightarrow> real \<Rightarrow> real" where
  "fpow2 fs a = rnd fs (a ^ 2)"

definition fpow_half :: "float_sem \<Rightarrow> real \<Rightarrow> real" where
  "fpow_half fs a = pow_half fs a"

text \<open>The builtin \<^verbatim>\<open>sum\<close>: it starts from \<open>0\<close> and adds from left to right.\<close>

definition fsum :: "float_sem \<Rightarrow> real list \<Rightarrow> real" where
  "fsum fs xs = foldl (fadd fs) 0 xs"

text \<open>
  \<^verbatim>\<open>round(x, 3)\<close>: the nearest multiple of \<open>1/1000\<close>, a tie going to the even
  multiple, then read as a float again.
\<close>

definition round_half_even :: "real \<Rightarrow> int" where
  "round_half_even x =
     (let f = \<lfloor>x\<rfloor>; d = x - of_int f
      in if d < 1/2 then f else if 1/2 < d then f + 1 else if even f then f else f + 1)"

definition py_round3 :: "float_sem \<Rightarrow> real \<Rightarrow> real" where
  "py_round3 fs x = rnd fs (of_int (round_half_even (x * 1000)) / 1000)"

text \<open>
  Exact arithmetic: no operation rounds, and \<^verbatim>\<open>x ** 0.5\<close> is the square root. The
  reading of literals and the order of the shared categories stay parameters.
\<close>

definition exact ::
  "(string \<Rightarrow> real option) \<Rightarrow> (string list \<Rightarrow> string list \<Rightarrow> string list) \<Rightarrow> float_sem" where
  "exact flt ord = \<lparr>float_of = flt, rnd = (\<lambda>x. x), pow_half = sqrt, set_order = ord\<rparr>"

text \<open>
  IEEE 754 binary64 with round-to-nearest, ties to even, and an unbounded exponent
  (no overflow, no subnormal numbers): a nonzero \<open>x\<close> with
  \<open>2 ^ e \<le> \<bar>x\<bar> < 2 ^ (e + 1)\<close> goes to the nearest multiple of \<open>2 ^ (e - 52)\<close>.
\<close>

definition round64 :: "real \<Rightarrow> real" where
  "round64 x =
     (if x = 0 then 0
      else let u = 2 powr of_int (\<lfloor>log 2 \<bar>x\<bar>\<rfloor> - 52)
           in of_int (round_half_even (x / u)) * u)"

text \<open>
  A rounding with a relative error of at most \<open>2 ^ (- 53)\<close>, as that of binary64 (and
  of exact arithmetic).
\<close>

definition accurate :: "(real \<Rightarrow> real) \<Rightarrow> bool" where
  "accurate r = (\<forall>x. \<bar>r x - x\<bar> \<le> \<bar>x\<bar> / 2 ^ 53)"

text \<open>
  The unsigned decimal literals that \<^verbatim>\<open>float\<close> reads, such as \<^verbatim>\<open>1\<close>,
  \<^verbatim>\<open>0.85\<close>, \<^verbatim>\<open>.5\<close> and \<^verbatim>\<open>5.\<close>: digits with at most one point. This
  is a fragment of what \<^verbatim>\<open>float\<close> accepts (it also reads a sign, an exponent,
  surrounding blanks, underscores, \<^verbatim>\<open>inf\<close> and \<^verbatim>\<open>nan\<close>); it gives \<open>float_of\<close>
  a value at the concrete inputs below.
\<close>

definition digit_value :: "char \<Rightarrow> nat option" where
  "digit_value c =
     (let n = (of_char c :: nat) in if 48 \<le> n \<and> n \<le> 57 then Some (n - 48) else None)"

primrec nat_of_digits :: "nat \<Rightarrow> string \<Rightarrow> nat option" where
  "nat_of_digits acc [] = Some acc"
| "nat_of_digits acc (c # cs) =
     (case digit_value c of None \<Rightarrow> None | Some d \<Rightarrow> nat_of_digits (10 * acc + d) cs)"

definition decimal_literal :: "string \<Rightarrow> real option" where
  "decimal_literal s =
     (let ip = takeWhile (\<lambda>c. c \<noteq> CHR ''.'') s;
          fp = drop 1 (dropWhile (\<lambda>c. c \<noteq> CHR ''.'') s)
      in if ip = [] \<and> fp = [] then None
         else (case nat_of_digits 0 ip of
                 None \<Rightarrow> None
               | Some a \<Rightarrow>
                   (case nat_of_digits 0 fp of
                      None \<Rightarrow> None
                    | Some b \<Rightarrow> Some (real a + real b / 10 ^ length fp))))"

text \<open>
  Two orders of the shared categories: that of the keys of the first dict, and that of
  the keys of the second dict. (CPython 3.11 started with \<^verbatim>\<open>PYTHONHASHSEED=0\<close> iterates
  the shared set of two dicts with the keys \<^verbatim>\<open>a, c, f, b\<close> and \<^verbatim>\<open>f, c, a, d\<close> in
  the order of the second dict.)
\<close>

definition first_operand_order :: "string list \<Rightarrow> string list \<Rightarrow> string list" where
  "first_operand_order keys1 keys2 = filter (\<lambda>cat. cat \<in> set keys2) keys1"

definition second_operand_order :: "string list \<Rightarrow> string list \<Rightarrow> string list" where
  "second_operand_order keys1 keys2 = filter (\<lambda>cat. cat \<in> set keys1) keys2"

text \<open>
  Exact arithmetic and binary64 arithmetic on decimal literals. In binary64 arithmetic
  \<^verbatim>\<open>x ** 0.5\<close> is the correctly rounded square root, which is what \<^verbatim>\<open>pow\<close>
  returns at the operands evaluated below (\<open>1.0\<close>, \<open>2.0\<close>, \<open>3.0\<close>, \<open>4.0\<close>,
  \<open>8.0\<close>, \<open>643204.0\<close> and \<open>2.0 ** 106\<close>).
\<close>

definition exact_decimal :: float_sem where
  "exact_decimal = exact decimal_literal first_operand_order"

definition binary64_order :: "(string list \<Rightarrow> string list \<Rightarrow> string list) \<Rightarrow> float_sem" where
  "binary64_order ord =
     \<lparr>float_of = (\<lambda>s. map_option round64 (decimal_literal s)), rnd = round64,
      pow_half = (\<lambda>x. round64 (sqrt x)), set_order = ord\<rparr>"

definition binary64 :: float_sem where
  "binary64 = binary64_order first_operand_order"

definition binary64_seed0 :: float_sem where
  "binary64_seed0 = binary64_order second_operand_order"

subsection \<open>Strings\<close>

text \<open>\<^verbatim>\<open>s.split(c)\<close>: the pieces between the occurrences of \<open>c\<close>; never empty.\<close>

fun split_on :: "char \<Rightarrow> string \<Rightarrow> string list" where
  "split_on c [] = [[]]"
| "split_on c (x # xs) =
     (if x = c then [] # split_on c xs
      else (case split_on c xs of [] \<Rightarrow> [[x]] | p # ps \<Rightarrow> (x # p) # ps))"

text \<open>
  \<^verbatim>\<open>if c in s: a, b = s.split(c, 1)\<close>: \<open>None\<close> when \<open>c\<close> does not occur in \<open>s\<close>,
  otherwise what stands before and after its first occurrence.
\<close>

definition split_first :: "char \<Rightarrow> string \<Rightarrow> (string \<times> string) option" where
  "split_first c s =
     (case dropWhile (\<lambda>x. x \<noteq> c) s of
        [] \<Rightarrow> None
      | _ # rest \<Rightarrow> Some (takeWhile (\<lambda>x. x \<noteq> c) s, rest))"

subsection \<open>Users and their preferences\<close>

record user =
  uid :: int
  name :: string
  email :: string
  preferences :: "string option"

text \<open>
  A Python dict keeps its keys in insertion order, and an assignment to a key that is
  present keeps the key's place: an association list under \<open>AList.update\<close>.
\<close>

type_synonym prefs = "(string \<times> real) list"

text \<open>
  The loop that parses a preference string (lines 59-62, 64-67 and 135-138 of the
  source, the same text three times).
\<close>

fun parse_pieces :: "float_sem \<Rightarrow> string list \<Rightarrow> prefs \<Rightarrow> py_error + prefs" where
  "parse_pieces fs [] acc = Inr acc"
| "parse_pieces fs (pref # rest) acc =
     (case split_first CHR '':'' pref of
        None \<Rightarrow> parse_pieces fs rest acc
      | Some (cat, score) \<Rightarrow>
          (case float_of fs score of
             None \<Rightarrow> Inl ValueError
           | Some v \<Rightarrow> parse_pieces fs rest (AList.update cat v acc)))"

definition parse_preferences :: "float_sem \<Rightarrow> string \<Rightarrow> py_error + prefs" where
  "parse_preferences fs s = parse_pieces fs (split_on CHR '','' s) []"

text \<open>
  What one piece of a preference string contributes when the string parses: nothing
  when it has no colon, otherwise the category before the first colon and the value of
  the text after it.
\<close>

definition piece_pair :: "float_sem \<Rightarrow> string \<Rightarrow> (string \<times> real) option" where
  "piece_pair fs p =
     (case split_first CHR '':'' p of
        None \<Rightarrow> None
      | Some (cat, score) \<Rightarrow> map_option (\<lambda>v. (cat, v)) (float_of fs score))"

text \<open>\<^verbatim>\<open>d[k]\<close> raises \<^verbatim>\<open>KeyError\<close> on a missing key.\<close>

definition getitem :: "prefs \<Rightarrow> string \<Rightarrow> py_error + real" where
  "getitem d k = (case map_of d k of None \<Rightarrow> Inl KeyError | Some v \<Rightarrow> Inr v)"

text \<open>A generator whose body may raise: the first error ends it.\<close>

primrec mapM :: "('a \<Rightarrow> py_error + 'b) \<Rightarrow> 'a list \<Rightarrow> py_error + 'b list" where
  "mapM f [] = Inr []"
| "mapM f (x # xs) =
     (case f x of
        Inl e \<Rightarrow> Inl e
      | Inr y \<Rightarrow> (case mapM f xs of Inl e \<Rightarrow> Inl e | Inr ys \<Rightarrow> Inr (y # ys)))"

subsection \<open>calculate_user_similarity\<close>

text \<open>
  \<^verbatim>\<open>set(prefs1.keys()) & set(prefs2.keys())\<close>, as the list of its elements in the
  order of iteration. Python does not fix that order: it is what \<open>set_order\<close> gives,
  provided that is a list of the shared keys without repetition (otherwise the shared
  keys are taken in the order of \<open>prefs1\<close>, so that every value of the parameter
  stands for an order of the set).
\<close>

definition common_categories :: "float_sem \<Rightarrow> prefs \<Rightarrow> prefs \<Rightarrow> string list" where
  "common_categories fs prefs1 prefs2 =
     (let keys1 = map fst prefs1; keys2 = map fst prefs2; common = set_order fs keys1 keys2
      in if distinct common \<and> set common = set keys1 \<inter> set keys2 then common
         else first_operand_order keys1 keys2)"

text \<open>\<^verbatim>\<open>sum(prefs1[cat] * prefs2[cat] for cat in common_categories)\<close>\<close>

definition dot_product :: "float_sem \<Rightarrow> prefs \<Rightarrow> prefs \<Rightarrow> string list \<Rightarrow> py_error + real" where
  "dot_product fs prefs1 prefs2 common =
     (case mapM (\<lambda>cat. case getitem prefs1 cat of
                          Inl e \<Rightarrow> Inl e
                        | Inr a \<Rightarrow> (case getitem prefs2 cat of
                                     Inl e \<Rightarrow> Inl e
                                   | Inr b \<Rightarrow> Inr (fmul fs a b))) common of
        Inl e \<Rightarrow> Inl e
      | Inr terms \<Rightarrow> Inr (fsum fs terms))"

text \<open>\<^verbatim>\<open>sum(prefs[cat]**2 for cat in prefs) ** 0.5\<close>\<close>

definition magnitude :: "float_sem \<Rightarrow> prefs \<Rightarrow> py_error + real" where
  "magnitude fs prefs =
     (case mapM (\<lambda>cat. case getitem prefs cat of
                          Inl e \<Rightarrow> Inl e
                        | Inr a \<Rightarrow> Inr (fpow2 fs a)) (map fst prefs) of
        Inl e \<Rightarrow> Inl e
      | Inr squares \<Rightarrow> Inr (fpow_half fs (fsum fs squares)))"

text \<open>\<^verbatim>\<open>not user.get('preferences')\<close>: the field is missing, NULL or the empty string.\<close>

definition no_preferences :: "user \<Rightarrow> bool" where
  "no_preferences u = (case preferences u of None \<Rightarrow> True | Some s \<Rightarrow> s = [])"

definition preference_string :: "user \<Rightarrow> string" where
  "preference_string u = (case preferences u of None \<Rightarrow> [] | Some s \<Rightarrow> s)"

definition calculate_user_similarity :: "float_sem \<Rightarrow> user \<Rightarrow> user \<Rightarrow> py_error + real" where
  "calculate_user_similarity fs user1 user2 =
     (if no_preferences user1 \<or> no_preferences user2 then Inr (flit fs (1/10))
      else
        case parse_preferences fs (preference_string user1) of
          Inl e \<Rightarrow> Inl e
        | Inr prefs1 \<Rightarrow>
        (case parse_preferences fs (preference_string user2) of
          Inl e \<Rightarrow> Inl e
        | Inr prefs2 \<Rightarrow>
        (let common = common_categories fs prefs1 prefs2 in
         if common = [] then Inr (flit fs (1/10))
         else
           case dot_product fs prefs1 prefs2 common of
             Inl e \<Rightarrow> Inl e
           | Inr dot \<Rightarrow>
           (case magnitude fs prefs1 of
             Inl e \<Rightarrow> Inl e
           | Inr magnitude1 \<Rightarrow>
           (case magnitude fs prefs2 of
             Inl e \<Rightarrow> Inl e
           | Inr magnitude2 \<Rightarrow>
               if magnitude1 = 0 \<or> magnitude2 = 0 then Inr (flit fs (1/10))
               else fdiv fs dot (fmul fs magnitude1 magnitude2))))))"

subsection \<open>The similarity as the specification words it\<close>

text \<open>
  Over preference maps: the floor \<open>0.1\<close> when either map is empty, when no category
  is shared or when a norm is zero; otherwise the dot product over the shared
  categories divided by the product of the norms of the full maps.
\<close>

definition dot_spec :: "(string \<rightharpoonup> real) \<Rightarrow> (string \<rightharpoonup> real) \<Rightarrow> real" where
  "dot_spec A B = (\<Sum>c \<in> dom A \<inter> dom B. the (A c) * the (B c))"

definition norm_spec :: "(string \<rightharpoonup> real) \<Rightarrow> real" where
  "norm_spec A = sqrt (\<Sum>c \<in> dom A. (the (A c))\<^sup>2)"

definition similarity_spec :: "(string \<rightharpoonup> real) \<Rightarrow> (string \<rightharpoonup> real) \<Rightarrow> real" where
  "similarity_spec A B =
     (if A = Map.empty \<or> B = Map.empty then 1/10
      else if dom A \<inter> dom B = {} then 1/10
      else if norm_spec A = 0 \<or> norm_spec B = 0 then 1/10
      else dot_spec A B / (norm_spec A * norm_spec B))"

text \<open>
  The preference map of a user: empty when the preference string is missing or empty,
  otherwise what the parsing loop builds.
\<close>

definition user_preference_map :: "float_sem \<Rightarrow> user \<Rightarrow> py_error + prefs" where
  "user_preference_map fs u =
     (if no_preferences u then Inr [] else parse_preferences fs (preference_string u))"

subsection \<open>generate_collaborative_recommendations\<close>

text \<open>
  \<^verbatim>\<open>xs.sort(key=k, reverse=True)\<close>: Python reverses the list, sorts it stably in
  ascending order and reverses the result, so that equal keys keep their order.
\<close>

definition sort_reverse :: "('a \<Rightarrow> real) \<Rightarrow> 'a list \<Rightarrow> 'a list" where
  "sort_reverse k xs = rev (sort_key k (rev xs))"

record recommendation =
  rec_type :: string
  rec_user_id :: int
  rec_user_name :: string
  rec_user_email :: string
  similarity_score :: real
  rec_reason :: string

definition user_connection :: "float_sem \<Rightarrow> user \<times> real \<Rightarrow> recommendation" where
  "user_connection fs p =
     \<lparr>rec_type = ''user_connection'',
      rec_user_id = uid (fst p),
      rec_user_name = name (fst p),
      rec_user_email = email (fst p),
      similarity_score = py_round3 fs (snd p),
      rec_reason = ''Similar interests and interaction patterns''\<rparr>"

text \<open>The pairs \<^verbatim>\<open>(user, similarity)\<close> of the users other than the target.\<close>

definition similarities_of :: "float_sem \<Rightarrow> user \<Rightarrow> int \<Rightarrow> user list \<Rightarrow> py_error + (user \<times> real) list" where
  "similarities_of fs target_user user_id users =
     mapM (\<lambda>u. case calculate_user_similarity fs target_user u of
                  Inl e \<Rightarrow> Inl e
                | Inr similarity \<Rightarrow> Inr (u, similarity))
          (filter (\<lambda>u. uid u \<noteq> user_id) users)"

text \<open>\<open>users\<close> is what \<^verbatim>\<open>load_user_data()\<close> returns.\<close>

definition generate_collaborative_recommendations ::
  "float_sem \<Rightarrow> user list \<Rightarrow> int \<Rightarrow> py_error + recommendation list" where
  "generate_collaborative_recommendations fs users user_id =
     (case find (\<lambda>u. uid u = user_id) users of
        None \<Rightarrow> Inr []
      | Some target_user \<Rightarrow>
          (case similarities_of fs target_user user_id users of
             Inl e \<Rightarrow> Inl e
           | Inr similarities \<Rightarrow>
               Inr (map (user_connection fs) (take 3 (sort_reverse snd similarities)))))"

subsection \<open>generate_content_recommendations\<close>

record content_item =
  item_id :: string
  item_type :: string
  title :: string
  category :: string
  score :: real

definition content_items :: "float_sem \<Rightarrow> content_item list" where
  "content_items fs =
    [\<lparr>item_id = ''tech-001'', item_type = ''article'', title = ''Future of AI'',
      category = ''technology'', score = flit fs (9/10)\<rparr>,
     \<lparr>item_id = ''tech-002'', item_type = ''article'', title = ''Web3 Explained'',
      category = ''technology'', score = flit fs (8/10)\<rparr>,
     \<lparr>item_id = ''sports-001'', item_type = ''article'', title = ''Olympics 2024'',
      category = ''sports'', score = flit fs (85/100)\<rparr>,
     \<lparr>item_id = ''music-001'', item_type = ''playlist'', title = ''Indie Rock Hits'',
      category = ''music'', score = flit fs (9/10)\<rparr>,
     \<lparr>item_id = ''travel-001'', item_type = ''guide'', title = ''Hidden Gems in Europe'',
      category = ''travel'', score = flit fs (87/100)\<rparr>,
     \<lparr>item_id = ''cook-001'', item_type = ''recipe'', title = ''Quick Healthy Meals'',
      category = ''cooking'', score = flit fs (75/100)\<rparr>]"

text \<open>
  An entry of the result: the item, and in personalized mode the two keys added to it.
\<close>

record content_rec =
  item :: content_item
  recommendation_score :: "real option"
  reason :: "string option"

definition plain_item :: "content_item \<Rightarrow> content_rec" where
  "plain_item it = \<lparr>item = it, recommendation_score = None, reason = None\<rparr>"

text \<open>\<^verbatim>\<open>user_prefs.get(item['category'], 0.1)\<close>\<close>

definition preference_score :: "float_sem \<Rightarrow> prefs \<Rightarrow> content_item \<Rightarrow> real" where
  "preference_score fs user_prefs it =
     (case map_of user_prefs (category it) of None \<Rightarrow> flit fs (1/10) | Some v \<Rightarrow> v)"

definition score_item :: "float_sem \<Rightarrow> prefs \<Rightarrow> content_item \<Rightarrow> content_rec" where
  "score_item fs user_prefs it =
     (let final_score = fmul fs (score it) (preference_score fs user_prefs it)
      in \<lparr>item = it,
          recommendation_score = Some (py_round3 fs final_score),
          reason = Some (''Matches your '' @ category it @ '' preferences'')\<rparr>)"

text \<open>The sort key \<^verbatim>\<open>x['recommendation_score']\<close>; every scored entry has it.\<close>

definition rec_key :: "content_rec \<Rightarrow> real" where
  "rec_key r = (case recommendation_score r of None \<Rightarrow> 0 | Some v \<Rightarrow> v)"

text \<open>
  \<^verbatim>\<open>random.sample(population, k)\<close> with \<open>k \<le> n\<close>, as CPython selects from a small
  population: the \<open>i\<close>-th draw \<open>j\<close> is below \<open>n - i\<close>, the result takes \<open>pool[j]\<close>, and
  the last element still in the pool moves to place \<open>j\<close>.
\<close>

fun sample_loop :: "(nat \<Rightarrow> nat) \<Rightarrow> nat \<Rightarrow> nat \<Rightarrow> 'a list \<Rightarrow> nat \<Rightarrow> 'a list" where
  "sample_loop rng n i pool 0 = []"
| "sample_loop rng n i pool (Suc m) =
     (let j = rng i mod (n - i)
      in pool ! j # sample_loop rng n (Suc i) (pool[j := pool ! (n - i - 1)]) m)"

definition random_sample :: "(nat \<Rightarrow> nat) \<Rightarrow> 'a list \<Rightarrow> nat \<Rightarrow> 'a list" where
  "random_sample rng population k = sample_loop rng (length population) 0 population k"

text \<open>
  \<open>user_id\<close> is \<open>None\<close> when the caller gives no id; \<^verbatim>\<open>if user_id:\<close> also fails on
  the id \<open>0\<close>. \<open>load_user_data\<close> is the lookup of one user in the data store.
\<close>

definition generate_content_recommendations ::
  "float_sem \<Rightarrow> (nat \<Rightarrow> nat) \<Rightarrow> (int \<Rightarrow> user list) \<Rightarrow> int option \<Rightarrow> py_error + content_rec list" where
  "generate_content_recommendations fs rng load_user_data user_id =
     (let default_recommendations =
            Inr (map plain_item
                   (random_sample rng (content_items fs) (min 3 (length (content_items fs)))))
      in case user_id of
           None \<Rightarrow> default_recommendations
         | Some n \<Rightarrow>
             if n = 0 then default_recommendations
             else
               (case load_user_data n of
                  [] \<Rightarrow> default_recommendations
                | u # _ \<Rightarrow>
                    if no_preferences u then default_recommendations
                    else
                      (case parse_preferences fs (preference_string u) of
                         Inl e \<Rightarrow> Inl e
                       | Inr user_prefs \<Rightarrow>
                           Inr (take 5 (sort_reverse rec_key
                                  (map (score_item fs user_prefs) (content_items fs)))))))"

subsection \<open>Concrete inputs\<close>

text \<open>
  A population of five users: the second and the third share categories with the first,
  the fourth shares none, the fifth has no preferences.
\<close>

definition example_user :: "int \<Rightarrow> string option \<Rightarrow> user" where
  "example_user i p = \<lparr>uid = i, name = ''user'', email = ''user@example.org'', preferences = p\<rparr>"

definition example_population :: "user list" where
  "example_population =
     [example_user 1 (Some ''a:3,b:4''), example_user 2 (Some ''a:1''),
      example_user 3 (Some ''a:3,b:4''), example_user 4 (Some ''c:1''),
      example_user 5 None]"

text \<open>
  A population in which the similarities of the first user to the second and to the
  third differ (\<open>80 / 802\<close> and the floor \<open>0.1\<close>) and are equal once rounded to 3
  decimals.
\<close>

definition tie_population :: "user list" where
  "tie_population =
     [example_user 1 (Some ''a:1''), example_user 2 (Some ''a:80,b:798''), example_user 3 None]"

text \<open>
  Two users whose shared categories are \<open>a\<close>, \<open>c\<close> and \<open>f\<close>, with a score of
  \<open>2 ^ 53\<close> in the first one, and a user whose scores are twice those of \<^verbatim>\<open>a:1,b:1\<close>.
\<close>

definition skewed_user :: user where
  "skewed_user = example_user 1 (Some ''a:9007199254740992,c:1,f:1,b:0'')"

definition level_user :: user where
  "level_user = example_user 2 (Some ''f:1,c:1,a:1,d:1'')"

definition doubled_user :: user where
  "doubled_user = example_user 2 (Some ''a:2,b:2'')"

text \<open>
  A data store in which every id has a user who prefers technology, a randomness source
  whose draws are all \<open>0\<close>, and the item ids of a result.
\<close>

definition technology_store :: "int \<Rightarrow> user list" where
  "technology_store n = [example_user n (Some ''technology:1.0'')]"

definition zero_rng :: "nat \<Rightarrow> nat" where
  "zero_rng i = 0"

definition item_ids :: "py_error + content_rec list \<Rightarrow> string list" where
  "item_ids r = (case r of Inl e \<Rightarrow> [] | Inr recs \<Rightarrow> map (\<lambda>x. item_id (item x)) recs)"

text \<open>
  Values of binary64 arithmetic: \<^verbatim>\<open>2.0 ** 0.5 = 1.4142135623730951\<close>,
  its square \<^verbatim>\<open>2.0000000000000004\<close> and the quotient \<^verbatim>\<open>0.9999999999999998\<close>;
  \<^verbatim>\<open>3.0 ** 0.5 = 1.7320508075688772\<close>, its square \<^verbatim>\<open>2.9999999999999996\<close> and the
  quotient \<^verbatim>\<open>1.0000000000000002\<close>.
\<close>

definition sqrt2_b64 :: real where
  "sqrt2_b64 = 6369051672525773 / 2 ^ 52"

definition above_two :: real where
  "above_two = 2 + 1 / 2 ^ 51"

definition below_one :: real where
  "below_one = 1 - 1 / 2 ^ 52"

definition sqrt3_b64 :: real where
  "sqrt3_b64 = 7800463371553962 / 2 ^ 52"

definition below_three :: real where
  "below_three = 3 - 1 / 2 ^ 51"

definition above_one :: real where
  "above_one = 1 + 1 / 2 ^ 52"

text \<open>The similarities of the first user of the population to the others.\<close>

definition example_sim :: "user \<Rightarrow> real" where
  "example_sim u = (if uid u = 2 then 3/5 else if uid u = 3 then 1 else 1/10)"

section \<open>Properties\<close>

subsection \<open>Generators and the descending sort\<close>

lemma mapM_Inr_D:
  "mapM f xs = Inr ys \<Longrightarrow> list_all2 (\<lambda>x y. f x = Inr y) xs ys"
proof (induction xs arbitrary: ys)
  case Nil
  then show ?case by simp
next
  case (Cons x xs)
  from Cons.prems obtain y zs where "f x = Inr y" "mapM f xs = Inr zs" "ys = y # zs"
    by (auto split: sum.splits)
  with Cons.IH [of zs] show ?case by simp
qed

lemma mapM_Inr_I:
  "list_all2 (\<lambda>x y. f x = Inr y) xs ys \<Longrightarrow> mapM f xs = Inr ys"
  by (induction rule: list_all2_induct) simp_all

lemma mapM_Inr_iff:
  "mapM f xs = Inr ys \<longleftrightarrow> list_all2 (\<lambda>x y. f x = Inr y) xs ys"
  using mapM_Inr_D mapM_Inr_I by blast

lemma mapM_total:
  "(\<And>x. x \<in> set xs \<Longrightarrow> f x = Inr (g x)) \<Longrightarrow> mapM f xs = Inr (map g xs)"
  by (induction xs) auto

lemma mapM_length: "mapM f xs = Inr ys \<Longrightarrow> length ys = length xs"
  by (simp add: mapM_Inr_iff list_all2_lengthD)

lemma sort_reverse_mset: "mset (sort_reverse k xs) = mset xs"
  by (simp add: sort_reverse_def)

lemma sort_reverse_set: "set (sort_reverse k xs) = set xs"
  by (simp add: sort_reverse_def)

lemma sort_reverse_sorted: "sorted_wrt (\<lambda>a b. k b \<le> k a) (sort_reverse k xs)"
proof -
  have "sorted (map k (sort_key k (rev xs)))" by simp
  then have "sorted_wrt (\<lambda>a b. k a \<le> k b) (sort_key k (rev xs))"
    by (simp add: sorted_wrt_map)
  then show ?thesis
    unfolding sort_reverse_def by (simp add: sorted_wrt_rev)
qed

lemma sort_reverse_stable:
  "filter (\<lambda>x. k x = v) (sort_reverse k xs) = filter (\<lambda>x. k x = v) xs"
  unfolding sort_reverse_def
  by (simp add: rev_filter [symmetric] sort_key_stable)

lemma round_half_even_mono:
  assumes "x \<le> y"
  shows "round_half_even x \<le> round_half_even y"
proof (cases "\<lfloor>x\<rfloor> = \<lfloor>y\<rfloor>")
  case True
  then show ?thesis
    using assms by (auto simp: round_half_even_def Let_def)
next
  case False
  then have "\<lfloor>x\<rfloor> + 1 \<le> \<lfloor>y\<rfloor>"
    using assms floor_mono [of x y] by linarith
  moreover have "round_half_even x \<le> \<lfloor>x\<rfloor> + 1"
    by (simp add: round_half_even_def Let_def)
  moreover have "\<lfloor>y\<rfloor> \<le> round_half_even y"
    by (simp add: round_half_even_def Let_def)
  ultimately show ?thesis by linarith
qed

lemma py_round3_mono:
  assumes "mono (rnd fs)" "x \<le> y"
  shows "py_round3 fs x \<le> py_round3 fs y"
proof -
  have "round_half_even (x * 1000) \<le> round_half_even (y * 1000)"
    using assms(2) by (intro round_half_even_mono) simp
  then have "(of_int (round_half_even (x * 1000)) :: real) / 1000
      \<le> of_int (round_half_even (y * 1000)) / 1000"
    by (simp add: divide_right_mono)
  then show ?thesis
    unfolding py_round3_def using assms(1) by (simp add: monoD)
qed

lemma sort_reverse_sorted_map:
  assumes "\<And>x y. k x \<le> k y \<Longrightarrow> g x \<le> g y"
  shows "sorted_wrt (\<lambda>a b. g b \<le> g a) (take n (sort_reverse k xs))"
proof -
  have "sorted_wrt (\<lambda>a b. k b \<le> k a) (sort_reverse k xs)"
    by (rule sort_reverse_sorted)
  then have "sorted_wrt (\<lambda>a b. g b \<le> g a) (sort_reverse k xs)"
    by (rule sorted_wrt_mono_rel [rotated]) (simp add: assms)
  then show ?thesis by (rule sorted_wrt_take)
qed

lemma similarities_of_fst:
  assumes "similarities_of fs t i users = Inr sims"
  shows "map fst sims = filter (\<lambda>u. uid u \<noteq> i) users"
proof -
  from assms have "list_all2 (\<lambda>u p. (case calculate_user_similarity fs t u of
                  Inl e \<Rightarrow> Inl e | Inr s \<Rightarrow> Inr (u, s)) = Inr p) (filter (\<lambda>u. uid u \<noteq> i) users) sims"
    by (simp add: similarities_of_def mapM_Inr_iff)
  then have "list_all2 (\<lambda>u p. fst p = u) (filter (\<lambda>u. uid u \<noteq> i) users) sims"
    by (rule list_all2_mono) (auto split: sum.splits)
  then show ?thesis
    by (induction rule: list_all2_induct) auto
qed

lemma similarities_of_total:
  assumes "\<And>u. u \<in> set users \<Longrightarrow> uid u \<noteq> i \<Longrightarrow> calculate_user_similarity fs t u = Inr (sim u)"
  shows "similarities_of fs t i users = Inr (map (\<lambda>u. (u, sim u)) (filter (\<lambda>u. uid u \<noteq> i) users))"
  unfolding similarities_of_def
  by (rule mapM_total) (simp add: assms)

subsection \<open>Evaluation at the concrete inputs\<close>

lemma common_categories_first:
  "set_order fs = first_operand_order \<Longrightarrow>
   common_categories fs prefs1 prefs2 =
     filter (\<lambda>cat. cat \<in> set (map fst prefs2)) (map fst prefs1)"
  by (simp add: common_categories_def first_operand_order_def Let_def)

lemma common_categories_second:
  "set_order fs = second_operand_order \<Longrightarrow> distinct (map fst prefs2) \<Longrightarrow>
   common_categories fs prefs1 prefs2 =
     filter (\<lambda>cat. cat \<in> set (map fst prefs1)) (map fst prefs2)"
  by (auto simp: common_categories_def second_operand_order_def Let_def)

lemma binary64_order_fields:
  "float_of (binary64_order ord) = (\<lambda>s. map_option round64 (decimal_literal s))"
  "rnd (binary64_order ord) = round64"
  "pow_half (binary64_order ord) = (\<lambda>x. round64 (sqrt x))"
  "set_order (binary64_order ord) = ord"
  by (simp_all add: binary64_order_def)

lemma set_order_values:
  "set_order (exact flt ord) = ord"
  "set_order exact_decimal = first_operand_order"
  "set_order binary64 = first_operand_order"
  "set_order binary64_seed0 = second_operand_order"
  by (simp_all add: exact_def exact_decimal_def binary64_def binary64_order_def binary64_seed0_def
      binary64_order_def)

lemmas eval_defs = calculate_user_similarity_def no_preferences_def preference_string_def
  parse_preferences_def split_first_def exact_decimal_def exact_def decimal_literal_def
  digit_value_def common_categories_first dot_product_def magnitude_def getitem_def
  fsum_def fadd_def fmul_def fdiv_def fpow2_def fpow_half_def flit_def example_user_def

lemma sqrt_25: "sqrt 25 = 5"
  by (rule real_sqrt_unique) simp_all

lemma example_similarity_2:
  "calculate_user_similarity exact_decimal (example_user 1 (Some ''a:3,b:4''))
     (example_user 2 (Some ''a:1'')) = Inr (3/5)"
  by (simp add: eval_defs sqrt_25)

lemma example_similarity_3:
  "calculate_user_similarity exact_decimal (example_user 1 (Some ''a:3,b:4''))
     (example_user 3 (Some ''a:3,b:4'')) = Inr 1"
  by (simp add: eval_defs sqrt_25)

lemma example_similarity_4:
  "calculate_user_similarity exact_decimal (example_user 1 (Some ''a:3,b:4''))
     (example_user 4 (Some ''c:1'')) = Inr (1/10)"
  by (simp add: eval_defs sqrt_25)

lemma example_similarity_5:
  "calculate_user_similarity exact_decimal (example_user 1 (Some ''a:3,b:4''))
     (example_user 5 None) = Inr (1/10)"
  by (simp add: eval_defs)

lemma example_similarities:
  "u \<in> set example_population \<Longrightarrow> uid u \<noteq> 1 \<Longrightarrow>
     calculate_user_similarity exact_decimal (example_user 1 (Some ''a:3,b:4'')) u
       = Inr (example_sim u)"
  unfolding example_population_def
  using example_similarity_2 example_similarity_3 example_similarity_4 example_similarity_5
  by (auto simp: example_sim_def example_user_def)

lemma example_collaborative:
  "generate_collaborative_recommendations exact_decimal example_population 1 =
     Inr (map (user_connection exact_decimal)
            [(example_user 3 (Some ''a:3,b:4''), 1), (example_user 2 (Some ''a:1''), 3/5),
             (example_user 4 (Some ''c:1''), 1/10)])"
proof -
  have "similarities_of exact_decimal (example_user 1 (Some ''a:3,b:4'')) 1 example_population =
      Inr (map (\<lambda>u. (u, example_sim u)) (filter (\<lambda>u. uid u \<noteq> 1) example_population))"
    by (rule similarities_of_total) (rule example_similarities)
  then show ?thesis
    by (simp add: generate_collaborative_recommendations_def example_population_def
        example_user_def example_sim_def sort_reverse_def)
qed

subsection \<open>The collaborative recommender\<close>

text \<open>
  C4. For every population and target user id, the collaborative recommender returns at
  most 3 recommendations, and none of them is the target user; when no user of the
  population has the target id it returns the empty list, not an error.
\<close>

theorem collaborative_at_most_three_no_target:
  "(\<forall>recs. generate_collaborative_recommendations fs users user_id = Inr recs \<longrightarrow>
      length recs \<le> 3 \<and> (\<forall>r \<in> set recs. rec_user_id r \<noteq> user_id))
   \<and> ((\<forall>u \<in> set users. uid u \<noteq> user_id) \<longrightarrow>
      generate_collaborative_recommendations fs users user_id = Inr [])"
proof (intro conjI allI impI)
  fix recs
  assume r: "generate_collaborative_recommendations fs users user_id = Inr recs"
  show "length recs \<le> 3"
  proof (cases "find (\<lambda>u. uid u = user_id) users")
    case None
    with r show ?thesis by (simp add: generate_collaborative_recommendations_def)
  next
    case (Some t)
    with r obtain sims where "recs = map (user_connection fs) (take 3 (sort_reverse snd sims))"
      by (auto simp: generate_collaborative_recommendations_def split: sum.splits)
    then show ?thesis by simp
  qed
  show "\<forall>r \<in> set recs. rec_user_id r \<noteq> user_id"
  proof (cases "find (\<lambda>u. uid u = user_id) users")
    case None
    with r show ?thesis by (simp add: generate_collaborative_recommendations_def)
  next
    case (Some t)
    with r obtain sims where s: "similarities_of fs t user_id users = Inr sims"
      and recs: "recs = map (user_connection fs) (take 3 (sort_reverse snd sims))"
      by (auto simp: generate_collaborative_recommendations_def split: sum.splits)
    have "set (map fst sims) \<subseteq> {u. uid u \<noteq> user_id}"
      using similarities_of_fst [OF s] by auto
    then have "\<forall>p \<in> set (take 3 (sort_reverse snd sims)). uid (fst p) \<noteq> user_id"
      using set_take_subset [of 3 "sort_reverse snd sims"]
      by (auto simp: sort_reverse_set)
    then show ?thesis by (auto simp: recs user_connection_def)
  qed
next
  assume "\<forall>u \<in> set users. uid u \<noteq> user_id"
  then have "find (\<lambda>u. uid u = user_id) users = None"
    by (simp add: find_None_iff)
  then show "generate_collaborative_recommendations fs users user_id = Inr []"
    by (simp add: generate_collaborative_recommendations_def)
qed

theorem collaborative_at_most_three_no_target_witness:
  "generate_collaborative_recommendations exact_decimal example_population 1 =
     Inr (map (user_connection exact_decimal)
            [(example_user 3 (Some ''a:3,b:4''), 1), (example_user 2 (Some ''a:1''), 3/5),
             (example_user 4 (Some ''c:1''), 1/10)])
   \<and> 1 \<notin> rec_user_id ` set (map (user_connection exact_decimal)
            [(example_user 3 (Some ''a:3,b:4''), 1), (example_user 2 (Some ''a:1''), 3/5),
             (example_user 4 (Some ''c:1''), 1/10)])
   \<and> 9 \<notin> uid ` set example_population
   \<and> generate_collaborative_recommendations exact_decimal example_population 9 = Inr []"
proof -
  have none: "\<forall>u \<in> set example_population. uid u \<noteq> 9"
    by (simp add: example_population_def example_user_def)
  show ?thesis
    using collaborative_at_most_three_no_target [of exact_decimal example_population 1]
      collaborative_at_most_three_no_target [of exact_decimal example_population 9]
      example_collaborative none
    by auto
qed

lemma py_round3_examples:
  "py_round3 exact_decimal 1 = 1"
  "py_round3 exact_decimal (3/5) = 3/5"
  "py_round3 exact_decimal (1/10) = 1/10"
  "mono (rnd exact_decimal)"
  by (simp_all add: py_round3_def exact_decimal_def exact_def round_half_even_def Let_def
      mono_def)

text \<open>
  C3, as amended. For a target user that is present, and when the similarity of the
  target to every other user is computed without error, the result \<open>recs\<close> is made of
  the first 3 elements of a list \<open>ranked\<close> that holds the pairs of the other users and
  their similarities, in non-increasing order of similarity, the pairs of equal
  similarity in the order of the population. Each entry carries the id, the name and the
  email of its user and, as its \<open>similarity_score\<close>, the similarity rounded to 3
  decimals; when the rounding of floats is monotone the returned scores are
  non-increasing. (Two entries whose returned scores are equal need not be in the order
  of the population: the sort is on the similarities before they are rounded, see the
  last section.)
\<close>

theorem collaborative_stable_top_three:
  assumes "find (\<lambda>u. uid u = user_id) users = Some target_user"
    and "\<And>u. u \<in> set users \<Longrightarrow> uid u \<noteq> user_id \<Longrightarrow>
           calculate_user_similarity fs target_user u = Inr (sim u)"
  shows "\<exists>ranked recs.
           generate_collaborative_recommendations fs users user_id = Inr recs
         \<and> recs = map (\<lambda>p. \<lparr>rec_type = ''user_connection'',
                               rec_user_id = uid (fst p),
                               rec_user_name = name (fst p),
                               rec_user_email = email (fst p),
                               similarity_score = py_round3 fs (snd p),
                               rec_reason = ''Similar interests and interaction patterns''\<rparr>)
                    (take 3 ranked)
         \<and> mset ranked = mset (map (\<lambda>u. (u, sim u)) (filter (\<lambda>u. uid u \<noteq> user_id) users))
         \<and> sorted_wrt (\<lambda>a b. snd b \<le> snd a) ranked
         \<and> (\<forall>v. filter (\<lambda>p. snd p = v) ranked =
                 filter (\<lambda>p. snd p = v)
                   (map (\<lambda>u. (u, sim u)) (filter (\<lambda>u. uid u \<noteq> user_id) users)))
         \<and> (mono (rnd fs) \<longrightarrow>
              sorted_wrt (\<lambda>a b. similarity_score b \<le> similarity_score a) recs)"
proof -
  let ?sims = "map (\<lambda>u. (u, sim u)) (filter (\<lambda>u. uid u \<noteq> user_id) users)"
  let ?entry = "\<lambda>p. \<lparr>rec_type = ''user_connection'',
                               rec_user_id = uid (fst p),
                               rec_user_name = name (fst p),
                               rec_user_email = email (fst p),
                               similarity_score = py_round3 fs (snd p),
                               rec_reason = ''Similar interests and interaction patterns''\<rparr>"
  have s: "similarities_of fs target_user user_id users = Inr ?sims"
    by (rule similarities_of_total) (rule assms(2))
  have e: "user_connection fs = ?entry"
    by (simp add: fun_eq_iff user_connection_def)
  have "generate_collaborative_recommendations fs users user_id =
          Inr (map ?entry (take 3 (sort_reverse snd ?sims)))"
    by (simp add: generate_collaborative_recommendations_def assms(1) s e)
  moreover have "mset (sort_reverse snd ?sims) = mset ?sims"
    by (rule sort_reverse_mset)
  moreover have "sorted_wrt (\<lambda>a b. snd b \<le> snd a) (sort_reverse snd ?sims)"
    by (rule sort_reverse_sorted)
  moreover have "\<forall>v. filter (\<lambda>p. snd p = v) (sort_reverse snd ?sims) =
      filter (\<lambda>p. snd p = v) ?sims"
    by (simp add: sort_reverse_stable)
  moreover have "mono (rnd fs) \<longrightarrow>
       sorted_wrt (\<lambda>a b. similarity_score b \<le> similarity_score a)
         (map ?entry (take 3 (sort_reverse snd ?sims)))"
  proof
    assume m: "mono (rnd fs)"
    have "sorted_wrt (\<lambda>a b. py_round3 fs (snd b) \<le> py_round3 fs (snd a))
            (take 3 (sort_reverse snd ?sims))"
      by (rule sort_reverse_sorted_map) (rule py_round3_mono [OF m])
    then show "sorted_wrt (\<lambda>a b. similarity_score b \<le> similarity_score a)
         (map ?entry (take 3 (sort_reverse snd ?sims)))"
      by (simp add: sorted_wrt_map)
  qed
  ultimately show ?thesis
    by (intro exI [of _ "sort_reverse snd ?sims"]
        exI [of _ "map ?entry (take 3 (sort_reverse snd ?sims))"] conjI) simp_all
qed

theorem collaborative_stable_top_three_witness:
  "find (\<lambda>u. uid u = 1) example_population = Some (example_user 1 (Some ''a:3,b:4''))
   \<and> mono (rnd exact_decimal)
   \<and> (\<exists>ranked recs.
         generate_collaborative_recommendations exact_decimal example_population 1 = Inr recs
       \<and> recs = map (\<lambda>p. \<lparr>rec_type = ''user_connection'',
                             rec_user_id = uid (fst p),
                             rec_user_name = name (fst p),
                             rec_user_email = email (fst p),
                             similarity_score = py_round3 exact_decimal (snd p),
                             rec_reason = ''Similar interests and interaction patterns''\<rparr>)
                  (take 3 ranked)
       \<and> mset ranked =
           mset (map (\<lambda>u. (u, example_sim u)) (filter (\<lambda>u. uid u \<noteq> 1) example_population))
       \<and> sorted_wrt (\<lambda>a b. snd b \<le> snd a) ranked
       \<and> (\<forall>v. filter (\<lambda>p. snd p = v) ranked =
               filter (\<lambda>p. snd p = v)
                 (map (\<lambda>u. (u, example_sim u)) (filter (\<lambda>u. uid u \<noteq> 1) example_population)))
       \<and> sorted_wrt (\<lambda>a b. similarity_score b \<le> similarity_score a) recs
       \<and> map rec_user_id recs = [3, 2, 4]
       \<and> map similarity_score recs = [1, 3/5, 1/10])"
proof -
  have t: "find (\<lambda>u. uid u = 1) example_population = Some (example_user 1 (Some ''a:3,b:4''))"
    by (simp add: example_population_def example_user_def)
  obtain ranked recs where
    r: "generate_collaborative_recommendations exact_decimal example_population 1 = Inr recs"
    and rest: "recs = map (\<lambda>p. \<lparr>rec_type = ''user_connection'',
                             rec_user_id = uid (fst p),
                             rec_user_name = name (fst p),
                             rec_user_email = email (fst p),
                             similarity_score = py_round3 exact_decimal (snd p),
                             rec_reason = ''Similar interests and interaction patterns''\<rparr>)
                  (take 3 ranked)"
      "mset ranked =
           mset (map (\<lambda>u. (u, example_sim u)) (filter (\<lambda>u. uid u \<noteq> 1) example_population))"
      "sorted_wrt (\<lambda>a b. snd b \<le> snd a) ranked"
      "\<forall>v. filter (\<lambda>p. snd p = v) ranked =
               filter (\<lambda>p. snd p = v)
                 (map (\<lambda>u. (u, example_sim u)) (filter (\<lambda>u. uid u \<noteq> 1) example_population))"
      "mono (rnd exact_decimal) \<longrightarrow>
         sorted_wrt (\<lambda>a b. similarity_score b \<le> similarity_score a) recs"
    using collaborative_stable_top_three [OF t example_similarities] by blast
  have v: "map rec_user_id recs = [3, 2, 4]" "map similarity_score recs = [1, 3/5, 1/10]"
    using r unfolding example_collaborative
    by (auto simp: user_connection_def example_user_def py_round3_examples)
  have m: "mono (rnd exact_decimal)" by (rule py_round3_examples(4))
  have s: "sorted_wrt (\<lambda>a b. similarity_score b \<le> similarity_score a) recs"
    using rest(5) m by (rule mp)
  show ?thesis
    by (intro conjI exI [of _ ranked] exI [of _ recs])
      (rule t m r rest(1) rest(2) rest(3) rest(4) s v(1) v(2))+
qed


subsection \<open>The default mode of the content recommender\<close>

lemma pool_step:
  assumes d: "distinct (take m pool)" and j: "j < m" and m: "m \<le> length pool"
  shows "distinct (take (m - 1) (pool[j := pool ! (m - 1)]))"
    and "set (take (m - 1) (pool[j := pool ! (m - 1)])) = set (take m pool) - {pool ! j}"
proof -
  let ?p = "pool[j := pool ! (m - 1)]"
  have jl: "j < length pool" using j m by simp
  have nth: "\<And>a. a < m - 1 \<Longrightarrow> take (m - 1) ?p ! a = (if a = j then pool ! (m - 1) else pool ! a)"
    using jl by (simp add: nth_list_update)
  have len: "length (take (m - 1) ?p) = m - 1" using m by simp
  have inj: "\<And>a b. a < m \<Longrightarrow> b < m \<Longrightarrow> pool ! a = pool ! b \<Longrightarrow> a = b"
    using d m by (auto simp: distinct_conv_nth)
  show "distinct (take (m - 1) ?p)"
    unfolding distinct_conv_nth len
  proof (intro allI impI)
    fix a b assume ab: "a < m - 1" "b < m - 1" "a \<noteq> b"
    have am: "a < m" "b < m" "m - 1 < m" "a \<noteq> m - 1" "b \<noteq> m - 1"
      using ab by simp_all
    have "pool ! a \<noteq> pool ! b"
      using inj [OF am(1) am(2)] ab(3) by blast
    moreover have "pool ! (m - 1) \<noteq> pool ! b"
      using inj [OF am(3) am(2)] am(5) by blast
    moreover have "pool ! a \<noteq> pool ! (m - 1)"
      using inj [OF am(1) am(3)] am(4) by blast
    ultimately have "(if a = j then pool ! (m - 1) else pool ! a) \<noteq> (if b = j then pool ! (m - 1) else pool ! b)"
      using ab(3) by auto
    then show "take (m - 1) ?p ! a \<noteq> take (m - 1) ?p ! b"
      unfolding nth [OF ab(1)] nth [OF ab(2)] .
  qed
  show "set (take (m - 1) ?p) = set (take m pool) - {pool ! j}"
  proof (intro set_eqI iffI)
    fix x assume "x \<in> set (take (m - 1) ?p)"
    then obtain a where a: "a < m - 1" "x = take (m - 1) ?p ! a"
      using len by (metis in_set_conv_nth)
    then have x: "x = (if a = j then pool ! (m - 1) else pool ! a)"
      unfolding nth [OF a(1)] by simp
    have "x \<in> set (take m pool)"
    proof -
      have "\<And>c. c < m \<Longrightarrow> pool ! c \<in> set (take m pool)"
        using m by (metis in_set_conv_nth length_take min.absorb2 nth_take)
      then show ?thesis using x a j by (cases "a = j") auto
    qed
    moreover have "x \<noteq> pool ! j"
    proof (cases "a = j")
      case True
      have "m - 1 < m" "m - 1 \<noteq> j" using a True by simp_all
      then have "pool ! (m - 1) \<noteq> pool ! j" using inj [of "m - 1" j] j by blast
      with x True show ?thesis by simp
    next
      case False
      have "a < m" using a by simp
      then have "pool ! a \<noteq> pool ! j" using inj [of a j] j False by blast
      with x False show ?thesis by simp
    qed
    ultimately show "x \<in> set (take m pool) - {pool ! j}" by simp
  next
    fix x assume "x \<in> set (take m pool) - {pool ! j}"
    then obtain c where c: "c < m" "x = pool ! c" "x \<noteq> pool ! j"
      using m by (auto simp: in_set_conv_nth)
    then have cj: "c \<noteq> j" by auto
    show "x \<in> set (take (m - 1) ?p)"
    proof (cases "c = m - 1")
      case True
      then have jm: "j < m - 1" using cj j c by simp
      have "take (m - 1) ?p ! j = x" unfolding nth [OF jm] using True c by simp
      with jm show ?thesis using len by (metis in_set_conv_nth)
    next
      case False
      then have cm: "c < m - 1" using c by simp
      have "take (m - 1) ?p ! c = x" unfolding nth [OF cm] using cj c by simp
      with cm show ?thesis using len by (metis in_set_conv_nth)
    qed
  qed
qed

lemma sample_loop_props:
  "k \<le> n - i \<Longrightarrow> n - i \<le> length pool \<Longrightarrow> distinct (take (n - i) pool) \<Longrightarrow>
     length (sample_loop rng n i pool k) = k
     \<and> distinct (sample_loop rng n i pool k)
     \<and> set (sample_loop rng n i pool k) \<subseteq> set (take (n - i) pool)"
proof (induction k arbitrary: i pool)
  case 0
  then show ?case by simp
next
  case (Suc k)
  let ?m = "n - i"
  let ?j = "rng i mod ?m"
  let ?p = "pool[?j := pool ! (?m - 1)]"
  have m: "0 < ?m" using Suc.prems(1) by simp
  then have j: "?j < ?m" by simp
  have eq: "n - Suc i = ?m - 1" by simp
  have d': "distinct (take (n - Suc i) ?p)"
    and s': "set (take (n - Suc i) ?p) = set (take ?m pool) - {pool ! ?j}"
    unfolding eq using pool_step [OF Suc.prems(3) j Suc.prems(2)] by simp_all
  have "k \<le> n - Suc i" using Suc.prems(1) by simp
  moreover have "n - Suc i \<le> length ?p" using Suc.prems(2) by simp
  ultimately have IH: "length (sample_loop rng n (Suc i) ?p k) = k"
    "distinct (sample_loop rng n (Suc i) ?p k)"
    "set (sample_loop rng n (Suc i) ?p k) \<subseteq> set (take (n - Suc i) ?p)"
    using Suc.IH [of "Suc i" ?p] d' by simp_all
  have in_pool: "pool ! ?j \<in> set (take ?m pool)"
    using j Suc.prems(2) by (metis in_set_conv_nth length_take min.absorb2 nth_take)
  have unfold: "sample_loop rng n i pool (Suc k) = pool ! ?j # sample_loop rng n (Suc i) ?p k"
    by (simp add: Let_def)
  show ?case
    unfolding unfold using IH s' in_pool by auto
qed

lemma random_sample_props:
  assumes "k \<le> length population" "distinct population"
  shows "length (random_sample rng population k) = k"
    and "distinct (random_sample rng population k)"
    and "set (random_sample rng population k) \<subseteq> set population"
  using sample_loop_props [of k "length population" 0 population rng] assms
  by (simp_all add: random_sample_def)

lemma content_items_distinct: "distinct (content_items fs)"
  by (simp add: content_items_def)

lemma content_items_length: "length (content_items fs) = 6"
  by (simp add: content_items_def)


lemma plain_item_distinct: "distinct xs \<Longrightarrow> distinct (map plain_item xs)"
  by (simp add: distinct_map inj_on_def plain_item_def)

lemma default_sample:
  "\<exists>picked. map plain_item
       (random_sample rng (content_items fs) (min 3 (length (content_items fs)))) =
         map plain_item picked
     \<and> length picked = min 3 (length (content_items fs))
     \<and> distinct picked
     \<and> set picked \<subseteq> set (content_items fs)
     \<and> distinct (map plain_item picked)"
proof -
  let ?k = "min 3 (length (content_items fs))"
  let ?picked = "random_sample rng (content_items fs) ?k"
  have k: "?k \<le> length (content_items fs)" by simp
  have "length ?picked = ?k" "distinct ?picked" "set ?picked \<subseteq> set (content_items fs)"
    using random_sample_props [OF k content_items_distinct] by simp_all
  moreover from this have "distinct (map plain_item ?picked)"
    by (simp add: plain_item_distinct)
  ultimately show ?thesis by blast
qed

lemma sample_example:
  "random_sample (\<lambda>i. 0) [a, b, c, d, e, f] (Suc (Suc (Suc 0))) = [a, f, e]"
  by (simp add: random_sample_def Let_def)

lemma example_sample:
  "\<exists>recs. generate_content_recommendations exact_decimal (\<lambda>i. 0) (\<lambda>n. []) (Some 7) = Inr recs
     \<and> map (\<lambda>r. item_id (item r)) recs = [''tech-001'', ''cook-001'', ''travel-001'']
     \<and> map recommendation_score recs = [None, None, None]"
  by (simp add: generate_content_recommendations_def content_items_def sample_example
      plain_item_def)

text \<open>
  C9. In default mode (no user id, or a user whose preference string is missing or
  empty) the content recommender returns, for every outcome \<open>rng\<close> of the randomness
  source, exactly \<open>min 3 (size of the catalog)\<close> entries, each an item of the catalog,
  none repeated.
\<close>

theorem content_default_mode:
  assumes "user_id = None
           \<or> (\<exists>n u rest. user_id = Some n \<and> load_user_data n = u # rest \<and> no_preferences u)"
  shows "\<exists>picked.
           generate_content_recommendations fs rng load_user_data user_id =
             Inr (map plain_item picked)
         \<and> length picked = min 3 (length (content_items fs))
         \<and> distinct picked
         \<and> set picked \<subseteq> set (content_items fs)
         \<and> distinct (map plain_item picked)"
proof -
  have "generate_content_recommendations fs rng load_user_data user_id =
          Inr (map plain_item
                 (random_sample rng (content_items fs) (min 3 (length (content_items fs)))))"
    using assms by (auto simp: generate_content_recommendations_def Let_def)
  then show ?thesis
    using default_sample [of rng fs] by auto
qed

theorem content_default_mode_witness:
  "(\<exists>picked.
       generate_content_recommendations exact_decimal (\<lambda>i. 0) (\<lambda>n. []) None =
         Inr (map plain_item picked)
     \<and> length picked = min 3 (length (content_items exact_decimal))
     \<and> distinct picked
     \<and> set picked \<subseteq> set (content_items exact_decimal)
     \<and> distinct (map plain_item picked))
   \<and> (\<exists>picked.
       generate_content_recommendations exact_decimal (\<lambda>i. 0)
           (\<lambda>n. [example_user n (Some [])]) (Some 7) =
         Inr (map plain_item picked)
     \<and> length picked = min 3 (length (content_items exact_decimal))
     \<and> distinct picked
     \<and> set picked \<subseteq> set (content_items exact_decimal)
     \<and> distinct (map plain_item picked))"
proof -
  have "no_preferences (example_user 7 (Some []))"
    by (simp add: no_preferences_def example_user_def)
  then have "\<exists>n u rest. Some (7::int) = Some n
       \<and> (\<lambda>n. [example_user n (Some [])]) n = u # rest \<and> no_preferences u"
    by blast
  then show ?thesis
    using content_default_mode [of None "\<lambda>n. []" exact_decimal "\<lambda>i. 0"]
      content_default_mode [of "Some 7" "\<lambda>n. [example_user n (Some [])]" exact_decimal "\<lambda>i. 0"]
    by blast
qed

text \<open>
  C10. When a user id is given and the data store has no record for it, the content
  recommender returns what it returns without a user id: a sample of 3 distinct catalog
  items, neither the empty list nor a scored ranking.
\<close>

theorem content_unknown_user_default:
  assumes "load_user_data n = []"
  shows "generate_content_recommendations fs rng load_user_data (Some n) =
           generate_content_recommendations fs rng load_user_data None
         \<and> (\<exists>picked.
               generate_content_recommendations fs rng load_user_data (Some n) =
                 Inr (map plain_item picked)
             \<and> length picked = 3
             \<and> distinct picked
             \<and> set picked \<subseteq> set (content_items fs))"
proof -
  have eq: "generate_content_recommendations fs rng load_user_data (Some n) =
          Inr (map plain_item
                 (random_sample rng (content_items fs) (min 3 (length (content_items fs)))))"
    using assms by (simp add: generate_content_recommendations_def Let_def)
  moreover have "generate_content_recommendations fs rng load_user_data None =
          Inr (map plain_item
                 (random_sample rng (content_items fs) (min 3 (length (content_items fs)))))"
    by (simp add: generate_content_recommendations_def Let_def)
  ultimately show ?thesis
    using default_sample [of rng fs] by (auto simp: content_items_length)
qed

theorem content_unknown_user_default_witness:
  "generate_content_recommendations exact_decimal (\<lambda>i. 0) (\<lambda>n. []) (Some 7) =
     generate_content_recommendations exact_decimal (\<lambda>i. 0) (\<lambda>n. []) None
   \<and> (\<exists>recs. generate_content_recommendations exact_decimal (\<lambda>i. 0) (\<lambda>n. []) (Some 7) = Inr recs
     \<and> map (\<lambda>r. item_id (item r)) recs = [''tech-001'', ''cook-001'', ''travel-001'']
     \<and> map recommendation_score recs = [None, None, None])"
  using content_unknown_user_default [of "\<lambda>n. []" 7 exact_decimal "\<lambda>i. 0"] example_sample
  by simp


subsection \<open>The preference parser\<close>

lemma split_first_None: "split_first c p = None \<longleftrightarrow> c \<notin> set p"
proof -
  have "dropWhile (\<lambda>x. x \<noteq> c) p = [] \<longleftrightarrow> c \<notin> set p"
    by (auto simp: dropWhile_eq_Nil_conv)
  moreover have "split_first c p = None \<longleftrightarrow> dropWhile (\<lambda>x. x \<noteq> c) p = []"
    by (auto simp: split_first_def simp del: dropWhile_eq_Nil_conv split: list.splits)
  ultimately show ?thesis by simp
qed

lemma split_first_Some:
  "split_first c p = Some (a, b) \<longleftrightarrow> p = a @ c # b \<and> c \<notin> set a"
proof
  assume "split_first c p = Some (a, b)"
  then obtain y where d: "dropWhile (\<lambda>x. x \<noteq> c) p = y # b" and a: "a = takeWhile (\<lambda>x. x \<noteq> c) p"
    by (auto simp: split_first_def split: list.splits)
  from d have "y = c" using hd_dropWhile [of "\<lambda>x. x \<noteq> c" p] by auto
  with d a have "p = a @ c # b"
    using takeWhile_dropWhile_id [of "\<lambda>x. x \<noteq> c" p] by simp
  moreover have "c \<notin> set a"
    using a set_takeWhileD by fastforce
  ultimately show "p = a @ c # b \<and> c \<notin> set a" by simp
next
  assume "p = a @ c # b \<and> c \<notin> set a"
  then have p: "p = a @ c # b" and a: "\<forall>x \<in> set a. x \<noteq> c" by auto
  have "takeWhile (\<lambda>x. x \<noteq> c) p = a" "dropWhile (\<lambda>x. x \<noteq> c) p = c # b"
    unfolding p using a by (simp_all add: takeWhile_append2 dropWhile_append2)
  then show "split_first c p = Some (a, b)"
    by (simp add: split_first_def)
qed

lemma split_on_not_Nil: "split_on c s \<noteq> []"
  by (induction s) (auto split: list.splits)

lemma split_on_no_separator: "p \<in> set (split_on c s) \<Longrightarrow> c \<notin> set p"
  by (induction s arbitrary: p) (auto split: list.splits if_splits)

lemma split_on_join: "concat (map ((#) c) (split_on c s)) = c # s"
  by (induction s) (auto split: list.splits simp: split_on_not_Nil)

lemma parse_pieces_error:
  "parse_pieces fs ps acc = Inl e \<longleftrightarrow>
     e = ValueError \<and> (\<exists>p \<in> set ps. \<exists>cat score.
        split_first CHR '':'' p = Some (cat, score) \<and> float_of fs score = None)"
  by (induction ps arbitrary: acc) (auto split: option.splits)

lemma parse_pieces_map:
  "parse_pieces fs ps acc = Inr m \<Longrightarrow>
     map_of m = map_of (rev (List.map_filter (piece_pair fs) ps) @ acc)"
proof (induction ps arbitrary: acc)
  case Nil
  then show ?case by (simp add: List.map_filter_simps)
next
  case (Cons p ps)
  show ?case
  proof (cases "split_first CHR '':'' p")
    case None
    with Cons show ?thesis
      by (simp add: List.map_filter_simps piece_pair_def)
  next
    case (Some cs)
    obtain cat score where cs: "cs = (cat, score)" by (cases cs)
    with Some Cons.prems obtain v where v: "float_of fs score = Some v"
      and rest: "parse_pieces fs ps (AList.update cat v acc) = Inr m"
      by (auto split: option.splits)
    have "map_of m = map_of (rev (List.map_filter (piece_pair fs) ps) @ AList.update cat v acc)"
      by (rule Cons.IH [OF rest])
    also have "\<dots> = map_of (rev (List.map_filter (piece_pair fs) (p # ps)) @ acc)"
      using Some cs v
      by (simp add: List.map_filter_simps piece_pair_def map_of_append update_conv' map_add_def
          fun_eq_iff split: option.splits)
    finally show ?thesis .
  qed
qed

lemma parse_pieces_distinct:
  "parse_pieces fs ps acc = Inr m \<Longrightarrow> distinct (map fst acc) \<Longrightarrow> distinct (map fst m)"
  by (induction ps arbitrary: acc) (auto split: option.splits simp: distinct_update)

lemma parse_preferences_empty: "parse_preferences fs [] = Inr []"
  by (simp add: parse_preferences_def split_first_def)

lemma similarity_no_preferences:
  "no_preferences u \<Longrightarrow> calculate_user_similarity fs u v = Inr (flit fs (1/10))"
  "no_preferences u \<Longrightarrow> calculate_user_similarity fs v u = Inr (flit fs (1/10))"
  by (simp_all add: calculate_user_similarity_def)

lemma similarity_propagates:
  assumes "\<not> no_preferences u" "\<not> no_preferences v"
    and "parse_preferences fs (preference_string u) = Inl ValueError
         \<or> parse_preferences fs (preference_string v) = Inl ValueError"
  shows "calculate_user_similarity fs u v = Inl ValueError"
proof (cases "parse_preferences fs (preference_string u)")
  case (Inl e)
  then have "e = ValueError" by (simp add: parse_preferences_def parse_pieces_error)
  with Inl assms show ?thesis by (simp add: calculate_user_similarity_def)
next
  case (Inr m)
  with assms show ?thesis by (simp add: calculate_user_similarity_def)
qed

lemma example_parse:
  "parse_preferences exact_decimal ''a:3,b:4,zz,a:1.5'' = Inr [(''a'', 3/2), (''b'', 4)]"
  by (simp add: parse_preferences_def split_first_def exact_decimal_def exact_def
      decimal_literal_def digit_value_def)

lemma example_pieces:
  "split_on CHR '','' ''a:3,zz,b:x:y'' = [''a:3'', ''zz'', ''b:x:y'']"
  "split_first CHR '':'' ''b:x:y'' = Some (''b'', ''x:y'')"
  "float_of exact_decimal ''x:y'' = None"
  by (simp_all add: split_first_def exact_decimal_def exact_def decimal_literal_def
      digit_value_def)

text \<open>
  C5. The parsing loop splits the string on commas and each piece at its first colon
  only; a piece with no colon is skipped; the loop raises \<^verbatim>\<open>ValueError\<close> (the
  spec's ParseError) exactly when the text after the first colon of some piece is not a
  float literal, and the two callers pass the error on; otherwise the dict maps each
  category to the value of the last piece that names it. The empty string gives the
  empty dict. A missing or empty string never reaches the loop: both callers treat
  such a user as one without preferences, and raise nothing.
\<close>

theorem preference_parser_contract:
  "(split_on CHR '','' s \<noteq> []
      \<and> (\<forall>p \<in> set (split_on CHR '','' s). CHR '','' \<notin> set p)
      \<and> concat (map ((#) CHR '','') (split_on CHR '','' s)) = CHR '','' # s)
   \<and> (\<forall>p. split_first CHR '':'' p = None \<longleftrightarrow> CHR '':'' \<notin> set p)
   \<and> (\<forall>p cat score. split_first CHR '':'' p = Some (cat, score) \<longleftrightarrow>
          p = cat @ CHR '':'' # score \<and> CHR '':'' \<notin> set cat)
   \<and> (\<forall>e. parse_preferences fs s = Inl e \<longleftrightarrow>
          e = ValueError \<and> (\<exists>p \<in> set (split_on CHR '','' s). \<exists>cat score.
             split_first CHR '':'' p = Some (cat, score) \<and> float_of fs score = None))
   \<and> (\<forall>m. parse_preferences fs s = Inr m \<longrightarrow>
          distinct (map fst m)
          \<and> map_of m = map_of (rev (List.map_filter (piece_pair fs) (split_on CHR '','' s))))
   \<and> parse_preferences fs [] = Inr []
   \<and> (\<forall>u v. no_preferences u \<longrightarrow>
          calculate_user_similarity fs u v = Inr (flit fs (1/10))
          \<and> calculate_user_similarity fs v u = Inr (flit fs (1/10)))
   \<and> (\<forall>u v. \<not> no_preferences u \<and> \<not> no_preferences v
          \<and> (parse_preferences fs (preference_string u) = Inl ValueError
             \<or> parse_preferences fs (preference_string v) = Inl ValueError) \<longrightarrow>
          calculate_user_similarity fs u v = Inl ValueError)
   \<and> (\<forall>rng load_user_data n u rest.
          n \<noteq> 0 \<and> load_user_data n = u # rest \<and> \<not> no_preferences u
          \<and> parse_preferences fs (preference_string u) = Inl ValueError \<longrightarrow>
          generate_content_recommendations fs rng load_user_data (Some n) = Inl ValueError)"
proof (intro conjI allI impI)
  show "split_on CHR '','' s \<noteq> []" by (rule split_on_not_Nil)
  show "\<forall>p \<in> set (split_on CHR '','' s). CHR '','' \<notin> set p"
    using split_on_no_separator by blast
  show "concat (map ((#) CHR '','') (split_on CHR '','' s)) = CHR '','' # s"
    by (rule split_on_join)
  show "split_first CHR '':'' p = None \<longleftrightarrow> CHR '':'' \<notin> set p" for p
    by (rule split_first_None)
  show "split_first CHR '':'' p = Some (cat, score) \<longleftrightarrow>
          p = cat @ CHR '':'' # score \<and> CHR '':'' \<notin> set cat" for p cat score
    by (rule split_first_Some)
  show "parse_preferences fs s = Inl e \<longleftrightarrow>
          e = ValueError \<and> (\<exists>p \<in> set (split_on CHR '','' s). \<exists>cat score.
             split_first CHR '':'' p = Some (cat, score) \<and> float_of fs score = None)" for e
    unfolding parse_preferences_def by (rule parse_pieces_error)
  show "distinct (map fst m)" if "parse_preferences fs s = Inr m" for m
    using that parse_pieces_distinct [of fs "split_on CHR '','' s" "[]" m]
    by (simp add: parse_preferences_def)
  show "map_of m = map_of (rev (List.map_filter (piece_pair fs) (split_on CHR '','' s)))"
    if "parse_preferences fs s = Inr m" for m
    using that parse_pieces_map [of fs "split_on CHR '','' s" "[]" m]
    by (simp add: parse_preferences_def)
  show "parse_preferences fs [] = Inr []" by (rule parse_preferences_empty)
  show "calculate_user_similarity fs u v = Inr (flit fs (1/10))" if "no_preferences u" for u v
    using that by (rule similarity_no_preferences)
  show "calculate_user_similarity fs v u = Inr (flit fs (1/10))" if "no_preferences u" for u v
    using that by (rule similarity_no_preferences)
  show "calculate_user_similarity fs u v = Inl ValueError"
    if "\<not> no_preferences u \<and> \<not> no_preferences v
          \<and> (parse_preferences fs (preference_string u) = Inl ValueError
             \<or> parse_preferences fs (preference_string v) = Inl ValueError)" for u v
    using that similarity_propagates [of u v fs] by blast
  show "generate_content_recommendations fs rng load_user_data (Some n) = Inl ValueError"
    if "n \<noteq> 0 \<and> load_user_data n = u # rest \<and> \<not> no_preferences u
          \<and> parse_preferences fs (preference_string u) = Inl ValueError"
    for rng load_user_data n u rest
    using that by (simp add: generate_content_recommendations_def Let_def)
qed

theorem preference_parser_contract_witness:
  "parse_preferences exact_decimal ''a:3,zz,b:x:y'' = Inl ValueError
   \<and> parse_preferences exact_decimal ''a:3,b:4,zz,a:1.5'' = Inr [(''a'', 3/2), (''b'', 4)]
   \<and> map_of [(''a'', 3/2), (''b'', 4 :: real)] =
       map_of (rev (List.map_filter (piece_pair exact_decimal)
                      (split_on CHR '','' ''a:3,b:4,zz,a:1.5'')))
   \<and> calculate_user_similarity exact_decimal (example_user 5 None)
        (example_user 2 (Some ''a:1'')) = Inr (flit exact_decimal (1/10))
   \<and> calculate_user_similarity exact_decimal (example_user 2 (Some ''a:1''))
        (example_user 6 (Some ''a:3,zz,b:x:y'')) = Inl ValueError"
proof -
  have bad: "\<exists>p \<in> set (split_on CHR '','' ''a:3,zz,b:x:y''). \<exists>cat score.
               split_first CHR '':'' p = Some (cat, score) \<and> float_of exact_decimal score = None"
    using example_pieces by simp
  have "\<forall>e. parse_preferences exact_decimal ''a:3,zz,b:x:y'' = Inl e \<longleftrightarrow>
          e = ValueError \<and> (\<exists>p \<in> set (split_on CHR '','' ''a:3,zz,b:x:y''). \<exists>cat score.
             split_first CHR '':'' p = Some (cat, score) \<and> float_of exact_decimal score = None)"
    using preference_parser_contract [of "''a:3,zz,b:x:y''" exact_decimal]
    by (elim conjE) assumption
  with bad have e: "parse_preferences exact_decimal ''a:3,zz,b:x:y'' = Inl ValueError"
    by simp
  have "\<forall>m. parse_preferences exact_decimal ''a:3,b:4,zz,a:1.5'' = Inr m \<longrightarrow>
          distinct (map fst m)
          \<and> map_of m = map_of (rev (List.map_filter (piece_pair exact_decimal)
                                    (split_on CHR '','' ''a:3,b:4,zz,a:1.5'')))"
    using preference_parser_contract [of "''a:3,b:4,zz,a:1.5''" exact_decimal]
    by (elim conjE) assumption
  with example_parse have m: "map_of [(''a'', 3/2), (''b'', 4 :: real)] =
       map_of (rev (List.map_filter (piece_pair exact_decimal)
                      (split_on CHR '','' ''a:3,b:4,zz,a:1.5'')))"
    by blast
  have n: "no_preferences (example_user 5 None)"
    "\<not> no_preferences (example_user 2 (Some ''a:1''))"
    "\<not> no_preferences (example_user 6 (Some ''a:3,zz,b:x:y''))"
    "preference_string (example_user 6 (Some ''a:3,zz,b:x:y'')) = ''a:3,zz,b:x:y''"
    by (simp_all add: no_preferences_def example_user_def preference_string_def)
  have "\<forall>u v. no_preferences u \<longrightarrow>
          calculate_user_similarity exact_decimal u v = Inr (flit exact_decimal (1/10))
          \<and> calculate_user_similarity exact_decimal v u = Inr (flit exact_decimal (1/10))"
    using preference_parser_contract [of "[]" exact_decimal]
    by (elim conjE) assumption
  with n(1) have a: "calculate_user_similarity exact_decimal (example_user 5 None)
        (example_user 2 (Some ''a:1'')) = Inr (flit exact_decimal (1/10))"
    by blast
  have "\<forall>u v. \<not> no_preferences u \<and> \<not> no_preferences v
          \<and> (parse_preferences exact_decimal (preference_string u) = Inl ValueError
             \<or> parse_preferences exact_decimal (preference_string v) = Inl ValueError) \<longrightarrow>
          calculate_user_similarity exact_decimal u v = Inl ValueError"
    using preference_parser_contract [of "[]" exact_decimal]
    by (elim conjE) assumption
  note r = this [rule_format, of "example_user 2 (Some ''a:1'')"
      "example_user 6 (Some ''a:3,zz,b:x:y'')"]
  have "parse_preferences exact_decimal
          (preference_string (example_user 6 (Some ''a:3,zz,b:x:y''))) = Inl ValueError"
    using e n(4) by simp
  with n(2) n(3) have "calculate_user_similarity exact_decimal (example_user 2 (Some ''a:1''))
        (example_user 6 (Some ''a:3,zz,b:x:y'')) = Inl ValueError"
    by (intro r) simp
  with e example_parse m a show ?thesis by simp
qed

subsection \<open>Rounding\<close>

lemma round_half_even_of_int: "round_half_even (of_int k) = k"
  by (simp add: round_half_even_def)

lemma py_round3_exact_grid:
  "py_round3 (exact flt ord) x = of_int (round_half_even (x * 1000)) / 1000"
  by (simp add: py_round3_def exact_def)

lemma round_half_even_near: "\<bar>of_int (round_half_even x) - x\<bar> \<le> 1/2"
  unfolding round_half_even_def Let_def
  by (auto split: if_splits)

lemma py_round3_exact_near: "\<bar>py_round3 (exact flt ord) x - x\<bar> \<le> 1/2000"
proof -
  have "\<bar>of_int (round_half_even (x * 1000)) - x * 1000\<bar> \<le> 1/2"
    by (rule round_half_even_near)
  then show ?thesis
    unfolding py_round3_exact_grid by (simp add: field_simps abs_le_iff)
qed

lemma round_half_even_unique:
  assumes "of_int n - 1/2 < y" "y < of_int n + 1/2"
  shows "round_half_even y = n"
proof (cases "of_int n \<le> y")
  case True
  then have "\<lfloor>y\<rfloor> = n" using assms by linarith
  then show ?thesis using assms by (simp add: round_half_even_def)
next
  case False
  then have f: "\<lfloor>y\<rfloor> = n - 1" using assms by linarith
  then have "1/2 < y - of_int \<lfloor>y\<rfloor>" using assms by simp
  then show ?thesis unfolding round_half_even_def Let_def f by simp
qed

lemma round64_unique:
  assumes "2 powr of_int e \<le> \<bar>x\<bar>" "\<bar>x\<bar> < 2 powr of_int (e + 1)"
    and "of_int n - 1/2 < x / 2 powr of_int (e - 52)"
    and "x / 2 powr of_int (e - 52) < of_int n + 1/2"
  shows "round64 x = of_int n * 2 powr of_int (e - 52)"
proof -
  have pos: "0 < \<bar>x\<bar>" using assms(1) by (smt (verit) powr_gt_zero)
  then have x0: "x \<noteq> 0" by simp
  have "of_int e \<le> log 2 \<bar>x\<bar>" using assms(1) pos by (simp add: le_log_iff)
  moreover have "log 2 \<bar>x\<bar> < of_int e + 1" using assms(2) pos by (simp add: log_less_iff)
  ultimately have "\<lfloor>log 2 \<bar>x\<bar>\<rfloor> = e" by linarith
  then show ?thesis
    using x0 round_half_even_unique [OF assms(3,4)]
    by (simp add: round64_def Let_def)
qed

lemma powr_values:
  "(2::real) powr (- 52) = 1 / 2 ^ 52"
  "(2::real) powr (- 51) = 1 / 2 ^ 51"
  "(2::real) powr (- 53) = 1 / 2 ^ 53"
  "(2::real) powr (- 1) = 1 / 2"
  by (simp_all add: powr_minus_divide)

lemma round64_1: "round64 1 = 1"
  using round64_unique [of 0 1 "2 ^ 52"] by (simp add: powr_values)

lemma round64_2: "round64 2 = 2"
  using round64_unique [of 1 2 "2 ^ 52"] by (simp add: powr_values)

lemma round64_3: "round64 3 = 3"
  using round64_unique [of 1 3 "3 * 2 ^ 51"] by (simp add: powr_values)

lemma round64_value:
  assumes "2 powr of_int e \<le> \<bar>x\<bar>" "\<bar>x\<bar> < 2 powr of_int (e + 1)"
    and "round_half_even (x / 2 powr of_int (e - 52)) = n"
  shows "round64 x = of_int n * 2 powr of_int (e - 52)"
proof -
  have pos: "0 < \<bar>x\<bar>" using assms(1) by (smt (verit) powr_gt_zero)
  then have x0: "x \<noteq> 0" by simp
  have "of_int e \<le> log 2 \<bar>x\<bar>" using assms(1) pos by (simp add: le_log_iff)
  moreover have "log 2 \<bar>x\<bar> < of_int e + 1" using assms(2) pos by (simp add: log_less_iff)
  ultimately have "\<lfloor>log 2 \<bar>x\<bar>\<rfloor> = e" by linarith
  then show ?thesis
    using x0 assms(3)
    by (simp add: round64_def Let_def)
qed

lemma round64_pow2: "round64 (2 ^ k) = 2 ^ k"
proof -
  have p: "(2::real) powr real k = 2 ^ k"
    by (rule powr_realpow) simp
  have q: "(2::real) powr (real k + 1) = 2 * 2 ^ k"
    by (simp add: powr_add p)
  have r: "(2::real) powr (real k - 52) = 2 ^ k / 2 ^ 52"
    by (simp add: powr_diff p powr_values)
  have "round_half_even (2 ^ k / (2 ^ k / 2 ^ 52)) = 2 ^ 52"
    using round_half_even_of_int [of "2 ^ 52"] by simp
  then show ?thesis
    using round64_value [of "int k" "2 ^ k" "2 ^ 52"] by (simp add: p q r)
qed

lemma round64_0: "round64 0 = 0"
  by (simp add: round64_def)

lemma round64_double: "round64 (2 * x) = 2 * round64 x"
proof (cases "x = 0")
  case True
  then show ?thesis by (simp add: round64_def)
next
  case False
  then have "log 2 \<bar>2 * x\<bar> = 1 + log 2 \<bar>x\<bar>"
    by (simp add: abs_mult log_mult)
  then have "\<lfloor>log 2 \<bar>2 * x\<bar>\<rfloor> = \<lfloor>log 2 \<bar>x\<bar>\<rfloor> + 1"
    by simp
  moreover have "(2::real) powr of_int (\<lfloor>log 2 \<bar>x\<bar>\<rfloor> + 1 - 52) =
      2 * 2 powr of_int (\<lfloor>log 2 \<bar>x\<bar>\<rfloor> - 52)"
    by (simp add: powr_add powr_diff)
  ultimately show ?thesis
    using False by (simp add: round64_def Let_def)
qed


lemma accurate_exact: "accurate (rnd (exact flt ord))"
  by (simp add: accurate_def exact_def)

lemma round64_accurate: "accurate round64"
  unfolding accurate_def
proof
  fix x :: real
  show "\<bar>round64 x - x\<bar> \<le> \<bar>x\<bar> / 2 ^ 53"
  proof (cases "x = 0")
    case True
    then show ?thesis by (simp add: round64_def)
  next
    case False
    define e where "e = \<lfloor>log 2 \<bar>x\<bar>\<rfloor>"
    define u :: real where "u = 2 powr of_int (e - 52)"
    have u: "0 < u" by (simp add: u_def)
    have "of_int e \<le> log 2 \<bar>x\<bar>" by (simp add: e_def)
    then have "2 powr of_int e \<le> \<bar>x\<bar>"
      using False by (simp add: le_log_iff)
    moreover have "2 powr of_int e = u * 2 ^ 52"
      by (simp add: u_def powr_diff)
    ultimately have ux: "u * 2 ^ 52 \<le> \<bar>x\<bar>" by simp
    have r: "round64 x = of_int (round_half_even (x / u)) * u"
      using False by (simp add: round64_def Let_def e_def u_def)
    have "\<bar>of_int (round_half_even (x / u)) - x / u\<bar> \<le> 1/2"
      by (rule round_half_even_near)
    then have "\<bar>of_int (round_half_even (x / u)) - x / u\<bar> * u \<le> 1/2 * u"
      using u by (intro mult_right_mono) simp_all
    moreover have "\<bar>of_int (round_half_even (x / u)) - x / u\<bar> * u = \<bar>round64 x - x\<bar>"
    proof -
      have "(of_int (round_half_even (x / u)) - x / u) * u = round64 x - x"
        using u by (simp add: r left_diff_distrib)
      then show ?thesis
        using u abs_mult_pos [of u "of_int (round_half_even (x / u)) - x / u"] by simp
    qed
    ultimately have "\<bar>round64 x - x\<bar> \<le> u / 2" by simp
    also have "\<dots> \<le> \<bar>x\<bar> / 2 ^ 53" using ux by (simp add: field_simps)
    finally show ?thesis .
  qed
qed

lemma accurate_binary64: "accurate (rnd binary64)"
  by (simp add: binary64_def binary64_order_def round64_accurate)

lemma accurate_bounds:
  assumes "accurate r" "0 \<le> x"
  shows "x * (1 - 1 / 2 ^ 53) \<le> r x" "r x \<le> x * (1 + 1 / 2 ^ 53)"
proof -
  have "\<bar>r x - x\<bar> \<le> \<bar>x\<bar> / 2 ^ 53"
    using assms(1) unfolding accurate_def by (rule spec)
  then have "\<bar>r x - x\<bar> \<le> x / 2 ^ 53"
    using assms(2) by simp
  then have "r x - x \<le> x / 2 ^ 53" "- (r x - x) \<le> x / 2 ^ 53"
    by (rule abs_le_D1, rule abs_le_D2)
  then have "r x \<le> x + x / 2 ^ 53" "x - x / 2 ^ 53 \<le> r x"
    by linarith+
  then show "x * (1 - 1 / 2 ^ 53) \<le> r x" "r x \<le> x * (1 + 1 / 2 ^ 53)"
    by (simp_all add: right_diff_distrib distrib_left)
qed

text \<open>The rounding of binary64 arithmetic is monotone.\<close>

lemma round_half_even_minus: "round_half_even (- y) = - round_half_even y"
proof (cases "y = of_int \<lfloor>y\<rfloor>")
  case True
  then obtain k where "y = of_int k" ..
  then have "- y = of_int (- k)" by simp
  then show ?thesis
    unfolding \<open>y = of_int k\<close>
    using round_half_even_of_int [of k] round_half_even_of_int [of "- k"] by simp
next
  case False
  then have lt: "of_int \<lfloor>y\<rfloor> < y" by linarith
  have "y < of_int \<lfloor>y\<rfloor> + 1" by linarith
  with lt have f: "\<lfloor>- y\<rfloor> = - \<lfloor>y\<rfloor> - 1" by linarith
  show ?thesis
    unfolding round_half_even_def Let_def f by auto
qed

lemma round64_minus: "round64 (- x) = - round64 x"
  by (simp add: round64_def Let_def round_half_even_minus)

lemma round64_range:
  assumes "0 < x"
  shows "2 powr of_int \<lfloor>log 2 x\<rfloor> \<le> round64 x"
    and "round64 x \<le> 2 powr of_int (\<lfloor>log 2 x\<rfloor> + 1)"
proof -
  define e where "e = \<lfloor>log 2 x\<rfloor>"
  define u :: real where "u = 2 powr of_int (e - 52)"
  have u: "0 < u" by (simp add: u_def)
  have r: "round64 x = of_int (round_half_even (x / u)) * u"
    using assms by (simp add: round64_def Let_def e_def u_def)
  have "of_int e \<le> log 2 x" "log 2 x < of_int e + 1"
    unfolding e_def by linarith+
  then have "2 powr of_int e \<le> x" "x < 2 powr (of_int e + 1)"
    using assms by (simp_all add: le_log_iff log_less_iff)
  moreover have lo: "2 powr of_int e = 2 ^ 52 * u"
    by (simp add: u_def powr_diff)
  moreover have hi: "2 powr (of_int e + 1) = 2 ^ 53 * u"
    by (simp add: u_def powr_diff powr_add)
  ultimately have "2 ^ 52 \<le> x / u" "x / u \<le> 2 ^ 53"
    using u by (simp_all add: field_simps)
  then have "round_half_even (2 ^ 52) \<le> round_half_even (x / u)"
    "round_half_even (x / u) \<le> round_half_even (2 ^ 53)"
    by (simp_all only: round_half_even_mono)
  then have "2 ^ 52 \<le> round_half_even (x / u)" "round_half_even (x / u) \<le> 2 ^ 53"
    using round_half_even_of_int [of "2 ^ 52"] round_half_even_of_int [of "2 ^ 53"]
    by simp_all
  then have "(2 ^ 52 :: real) \<le> of_int (round_half_even (x / u))"
    "(of_int (round_half_even (x / u)) :: real) \<le> 2 ^ 53"
    by (simp_all add: of_int_le_iff [symmetric] del: of_int_le_iff)
  then have "2 ^ 52 * u \<le> round64 x" "round64 x \<le> 2 ^ 53 * u"
    using u unfolding r by (simp_all add: mult_right_mono)
  then show "2 powr of_int \<lfloor>log 2 x\<rfloor> \<le> round64 x"
    and "round64 x \<le> 2 powr of_int (\<lfloor>log 2 x\<rfloor> + 1)"
    using lo hi by (simp_all add: e_def)
qed

lemma round64_mono_pos:
  assumes "0 < x" "x \<le> y"
  shows "round64 x \<le> round64 y"
proof (cases "\<lfloor>log 2 x\<rfloor> = \<lfloor>log 2 y\<rfloor>")
  case True
  define u :: real where "u = 2 powr of_int (\<lfloor>log 2 y\<rfloor> - 52)"
  have u: "0 < u" by (simp add: u_def)
  then have "x / u \<le> y / u" using assms(2) by (simp add: divide_right_mono)
  then have "round_half_even (x / u) \<le> round_half_even (y / u)"
    by (rule round_half_even_mono)
  then have "(of_int (round_half_even (x / u)) :: real) * u
      \<le> of_int (round_half_even (y / u)) * u"
    using u by (simp add: mult_right_mono)
  then show ?thesis
    using assms True by (simp add: round64_def Let_def u_def)
next
  case False
  have "log 2 x \<le> log 2 y" using assms by simp
  then have "\<lfloor>log 2 x\<rfloor> \<le> \<lfloor>log 2 y\<rfloor>" by (rule floor_mono)
  with False have "\<lfloor>log 2 x\<rfloor> + 1 \<le> \<lfloor>log 2 y\<rfloor>" by simp
  then have "(2::real) powr of_int (\<lfloor>log 2 x\<rfloor> + 1) \<le> 2 powr of_int \<lfloor>log 2 y\<rfloor>"
    by (simp only: powr_le_cancel_iff of_int_le_iff)
  moreover have "round64 x \<le> 2 powr of_int (\<lfloor>log 2 x\<rfloor> + 1)"
    using assms(1) by (rule round64_range)
  moreover have "2 powr of_int \<lfloor>log 2 y\<rfloor> \<le> round64 y"
    using assms by (intro round64_range) simp
  ultimately show ?thesis by linarith
qed

lemma round64_nonneg: "0 \<le> x \<Longrightarrow> 0 \<le> round64 x"
  using accurate_bounds(1) [OF round64_accurate, of x]
  by (smt (verit) mult_nonneg_nonneg divide_le_eq_1_pos zero_less_power power_one_right
      one_le_power)

lemma mono_round64: "mono round64"
proof (rule monoI)
  fix x y :: real
  assume le: "x \<le> y"
  consider "0 < x" | "x \<le> 0" "0 \<le> y" | "y < 0" by linarith
  then show "round64 x \<le> round64 y"
  proof cases
    case 1
    then show ?thesis using le by (rule round64_mono_pos)
  next
    case 2
    have "0 \<le> round64 (- x)" using 2(1) by (intro round64_nonneg) simp
    then have "round64 x \<le> 0" by (simp add: round64_minus)
    moreover have "0 \<le> round64 y" using 2(2) by (rule round64_nonneg)
    ultimately show ?thesis by simp
  next
    case 3
    then have "0 < - y" "- y \<le> - x" using le by simp_all
    then have "round64 (- y) \<le> round64 (- x)" by (rule round64_mono_pos)
    then show ?thesis by (simp add: round64_minus)
  qed
qed

lemma mono_binary64: "mono (rnd (binary64_order ord))"
  by (simp add: binary64_order_def mono_round64)

subsection \<open>The personalized mode of the content recommender\<close>

lemma scored_key:
  assumes acc: "accurate (rnd fs)"
    and S: "0 < S" "S \<le> 1" and P: "0 < P" "P \<le> 1"
    and p: "P * (1 - 1 / 2 ^ 53) \<le> p" "p \<le> P * (1 + 1 / 2 ^ 53)"
    and n: "of_int n = S * P * 1000"
  shows "py_round3 fs (fmul fs (flit fs S) p) = rnd fs (of_int n / 1000)"
proof -
  define t :: real where "t = 1 / 2 ^ 53"
  define a where "a = rnd fs S"
  define b where "b = rnd fs (a * p)"
  define c where "c = S * P"
  have t: "0 < t" "t < 1" "4000 * t < 1/2" by (simp_all add: t_def)
  have cube: "1 - 4 * t \<le> (1 - t) * (1 - t) * (1 - t)" "(1 + t) * (1 + t) * (1 + t) \<le> 1 + 4 * t"
    by (simp_all add: t_def)
  have c: "0 < c" "c \<le> 1"
    using S P by (simp_all add: c_def mult_le_one)
  have a: "S * (1 - t) \<le> a" "a \<le> S * (1 + t)"
    using accurate_bounds [OF acc, of S] S by (simp_all add: a_def t_def)
  have p': "P * (1 - t) \<le> p" "p \<le> P * (1 + t)"
    using p by (simp_all add: t_def)
  have s0: "0 \<le> S * (1 - t)" "0 \<le> P * (1 - t)" "0 \<le> S * (1 + t)"
    using S P t by simp_all
  have a0: "0 \<le> a" using a(1) s0(1) by linarith
  have p0: "0 \<le> p" using p'(1) s0(2) by linarith
  have ap_lo: "S * (1 - t) * (P * (1 - t)) \<le> a * p"
    using a(1) p'(1) a0 s0(2) by (rule mult_mono)
  have ap_hi: "a * p \<le> S * (1 + t) * (P * (1 + t))"
    using a(2) p'(2) s0(3) p0 by (rule mult_mono)
  have ap0: "0 \<le> a * p" using a0 p0 by simp
  have b: "a * p * (1 - t) \<le> b" "b \<le> a * p * (1 + t)"
    using accurate_bounds [OF acc ap0] by (simp_all add: b_def t_def)
  have "S * (1 - t) * (P * (1 - t)) * (1 - t) \<le> a * p * (1 - t)"
    using ap_lo t by (intro mult_right_mono) simp_all
  then have "c * ((1 - t) * (1 - t) * (1 - t)) \<le> b"
    using b(1) by (simp add: c_def mult_ac)
  moreover have "c * (1 - 4 * t) \<le> c * ((1 - t) * (1 - t) * (1 - t))"
    using cube(1) c(1) by (intro mult_left_mono) simp_all
  moreover have "c - 4 * t \<le> c * (1 - 4 * t)"
  proof -
    have "c * (4 * t) \<le> 1 * (4 * t)" using c(2) t(1) by (intro mult_right_mono) simp_all
    then show ?thesis by (simp add: right_diff_distrib)
  qed
  ultimately have lo: "c - 4 * t \<le> b" by linarith
  have "a * p * (1 + t) \<le> S * (1 + t) * (P * (1 + t)) * (1 + t)"
    using ap_hi t by (intro mult_right_mono) simp_all
  then have "b \<le> c * ((1 + t) * (1 + t) * (1 + t))"
    using b(2) by (simp add: c_def mult_ac)
  moreover have "c * ((1 + t) * (1 + t) * (1 + t)) \<le> c * (1 + 4 * t)"
    using cube(2) c(1) by (intro mult_left_mono) simp_all
  moreover have "c * (1 + 4 * t) \<le> c + 4 * t"
  proof -
    have "c * (4 * t) \<le> 1 * (4 * t)" using c(2) t(1) by (intro mult_right_mono) simp_all
    then show ?thesis by (simp add: distrib_left)
  qed
  ultimately have hi: "b \<le> c + 4 * t" by linarith
  have nc: "of_int n = c * 1000" using n by (simp add: c_def)
  have "of_int n - 1/2 < b * 1000" "b * 1000 < of_int n + 1/2"
    using lo hi t(3) unfolding nc by linarith+
  then have "round_half_even (b * 1000) = n"
    by (rule round_half_even_unique)
  then show ?thesis
    by (simp add: py_round3_def fmul_def flit_def a_def b_def)
qed

lemma key_order:
  assumes acc: "accurate r" and "0 < n" "n < m" "m \<le> 1000"
  shows "r (of_int n / 1000) < r (of_int m / 1000)"
proof -
  define t :: real where "t = 1 / 2 ^ 53"
  have t: "0 < t" "2000 * t < 1" by (simp_all add: t_def)
  have n0: "0 \<le> real_of_int n / 1000" "0 \<le> real_of_int m / 1000"
    using assms by simp_all
  have "r (of_int n / 1000) \<le> of_int n / 1000 * (1 + t)"
    using accurate_bounds(2) [OF acc n0(1)] by (simp add: t_def)
  moreover have "of_int m / 1000 * (1 - t) \<le> r (of_int m / 1000)"
    using accurate_bounds(1) [OF acc n0(2)] by (simp add: t_def)
  moreover have "of_int n / 1000 * (1 + t) < of_int m / 1000 * (1 - t)"
  proof -
    have "real_of_int n + 1 \<le> real_of_int m" using assms(3) by linarith
    moreover have "(real_of_int n + real_of_int m) * t \<le> 2000 * t"
      using assms t(1) by (intro mult_right_mono) simp_all
    ultimately have "real_of_int n * (1 + t) < real_of_int m * (1 - t)"
      using t(2) by (simp add: algebra_simps)
    then show ?thesis by simp
  qed
  ultimately show ?thesis by linarith
qed

lemma sort_reverse_six:
  assumes "k r6 < k r3" "k r3 < k r5" "k r5 < k r4" "k r4 < k r2" "k r2 < k r1"
  shows "sort_reverse k [r1, r2, r3, r4, r5, r6] = [r1, r2, r4, r5, r3, r6]"
  using assms by (simp add: sort_reverse_def)

lemma score_item_key:
  assumes "accurate (rnd fs)" and "0 < S" "S \<le> 1" and "0 < P" "P \<le> 1"
    and "preference_score fs user_prefs it = 1 \<and> P = 1
         \<or> preference_score fs user_prefs it = flit fs P"
    and "score it = flit fs S" and "of_int n = S * P * 1000"
  shows "rec_key (score_item fs user_prefs it) = rnd fs (of_int n / 1000)"
proof -
  have "P * (1 - 1 / 2 ^ 53) \<le> preference_score fs user_prefs it
        \<and> preference_score fs user_prefs it \<le> P * (1 + 1 / 2 ^ 53)"
    using assms(6)
  proof
    assume "preference_score fs user_prefs it = 1 \<and> P = 1"
    then show ?thesis by simp
  next
    assume "preference_score fs user_prefs it = flit fs P"
    then show ?thesis
      using accurate_bounds [OF assms(1), of P] assms(4) by (simp add: flit_def)
  qed
  then have "py_round3 fs (fmul fs (flit fs S) (preference_score fs user_prefs it)) =
      rnd fs (of_int n / 1000)"
    using assms(1-5,8) by (intro scored_key) simp_all
  then show ?thesis
    by (simp add: rec_key_def score_item_def Let_def assms(7))
qed

lemma ranking_technology_accurate:
  assumes acc: "accurate (rnd fs)" and prefs: "map_of user_prefs = map_of [(''technology'', 1)]"
  shows "map (\<lambda>r. item_id (item r))
           (take 5 (sort_reverse rec_key
              (map (score_item fs user_prefs) (content_items fs)))) =
         [''tech-001'', ''tech-002'', ''music-001'', ''travel-001'', ''sports-001'']"
proof -
  define i1 where "i1 = \<lparr>item_id = ''tech-001'', item_type = ''article'', title = ''Future of AI'',
      category = ''technology'', score = flit fs (9/10)\<rparr>"
  define i2 where "i2 = \<lparr>item_id = ''tech-002'', item_type = ''article'', title = ''Web3 Explained'',
      category = ''technology'', score = flit fs (8/10)\<rparr>"
  define i3 where "i3 = \<lparr>item_id = ''sports-001'', item_type = ''article'', title = ''Olympics 2024'',
      category = ''sports'', score = flit fs (85/100)\<rparr>"
  define i4 where "i4 = \<lparr>item_id = ''music-001'', item_type = ''playlist'', title = ''Indie Rock Hits'',
      category = ''music'', score = flit fs (9/10)\<rparr>"
  define i5 where "i5 = \<lparr>item_id = ''travel-001'', item_type = ''guide'', title = ''Hidden Gems in Europe'',
      category = ''travel'', score = flit fs (87/100)\<rparr>"
  define i6 where "i6 = \<lparr>item_id = ''cook-001'', item_type = ''recipe'', title = ''Quick Healthy Meals'',
      category = ''cooking'', score = flit fs (75/100)\<rparr>"
  note i_defs = i1_def i2_def i3_def i4_def i5_def i6_def
  have items: "content_items fs = [i1, i2, i3, i4, i5, i6]"
    by (simp add: content_items_def i_defs)
  define sc where "sc = score_item fs user_prefs"
  have k1: "rec_key (sc i1) = rnd fs (of_int 900 / 1000)"
    unfolding sc_def using acc
    by (rule score_item_key [where S = "9/10" and P = 1])
      (simp_all add: preference_score_def prefs i1_def)
  have k2: "rec_key (sc i2) = rnd fs (of_int 800 / 1000)"
    unfolding sc_def using acc
    by (rule score_item_key [where S = "8/10" and P = 1])
      (simp_all add: preference_score_def prefs i2_def)
  have k3: "rec_key (sc i3) = rnd fs (of_int 85 / 1000)"
    unfolding sc_def using acc
    by (rule score_item_key [where S = "85/100" and P = "1/10"])
      (simp_all add: preference_score_def prefs i3_def)
  have k4: "rec_key (sc i4) = rnd fs (of_int 90 / 1000)"
    unfolding sc_def using acc
    by (rule score_item_key [where S = "9/10" and P = "1/10"])
      (simp_all add: preference_score_def prefs i4_def)
  have k5: "rec_key (sc i5) = rnd fs (of_int 87 / 1000)"
    unfolding sc_def using acc
    by (rule score_item_key [where S = "87/100" and P = "1/10"])
      (simp_all add: preference_score_def prefs i5_def)
  have k6: "rec_key (sc i6) = rnd fs (of_int 75 / 1000)"
    unfolding sc_def using acc
    by (rule score_item_key [where S = "75/100" and P = "1/10"])
      (simp_all add: preference_score_def prefs i6_def)
  have order: "rec_key (sc i6) < rec_key (sc i3)" "rec_key (sc i3) < rec_key (sc i5)"
    "rec_key (sc i5) < rec_key (sc i4)" "rec_key (sc i4) < rec_key (sc i2)"
    "rec_key (sc i2) < rec_key (sc i1)"
    unfolding k1 k2 k3 k4 k5 k6 using acc by (rule key_order; simp)+
  have "sort_reverse rec_key (map sc [i1, i2, i3, i4, i5, i6]) =
          [sc i1, sc i2, sc i4, sc i5, sc i3, sc i6]"
    using sort_reverse_six [of rec_key "sc i6" "sc i3" "sc i5" "sc i4" "sc i2" "sc i1", OF order]
    by simp
  then show ?thesis
    unfolding items sc_def [symmetric]
    by (simp add: sc_def score_item_def Let_def i_defs)
qed

lemma example_technology:
  "parse_preferences exact_decimal ''technology:1.0'' = Inr [(''technology'', 1)]"
  by (simp add: parse_preferences_def split_first_def exact_decimal_def exact_def
      decimal_literal_def digit_value_def)

lemma technology_user:
  "technology_store n = example_user n (Some ''technology:1.0'') # []"
  "\<not> no_preferences (example_user n (Some ''technology:1.0''))"
  "preference_string (example_user n (Some ''technology:1.0'')) = ''technology:1.0''"
  by (simp_all add: technology_store_def no_preferences_def preference_string_def
      example_user_def)

lemma sample_example_zero:
  "random_sample zero_rng [a, b, c, d, e, f] (Suc (Suc (Suc 0))) = [a, f, e]"
  by (simp add: random_sample_def Let_def zero_rng_def)

text \<open>
  C2, as amended. For a user id that is given and not \<open>0\<close>, whose record has a
  non-empty preference string that parses to \<open>user_prefs\<close>: every catalog item gets
  \<open>recommendation_score = round(score * pref, 3)\<close>, where \<open>pref\<close> is the user's
  value for the item's category, or \<open>0.1\<close> when the category is absent; the result is
  the first 5 entries of the scored catalog sorted by descending score, equal scores in
  catalog order. In exact arithmetic the rounded score is the nearest multiple of
  \<open>1/1000\<close>. For the preferences \<open>{technology: 1.0}\<close>, under every rounding with a
  relative error of at most \<open>2 ^ (- 53)\<close> (exact and binary64 arithmetic are such),
  the item tech-001 comes first and sports-001 last of the five. (The claim as stated
  fails for the id \<open>0\<close>, which \<^verbatim>\<open>if user_id:\<close> treats as no id.)
\<close>

theorem content_personalized_ranking:
  assumes "n \<noteq> 0" and "load_user_data n = u # rest" and "\<not> no_preferences u"
    and "parse_preferences fs (preference_string u) = Inr user_prefs"
  shows "\<exists>ranked.
           generate_content_recommendations fs rng load_user_data (Some n) = Inr (take 5 ranked)
         \<and> mset ranked = mset (map (score_item fs user_prefs) (content_items fs))
         \<and> sorted_wrt (\<lambda>a b. rec_key b \<le> rec_key a) ranked
         \<and> (\<forall>v. filter (\<lambda>r. rec_key r = v) ranked =
                 filter (\<lambda>r. rec_key r = v) (map (score_item fs user_prefs) (content_items fs)))
         \<and> length (take 5 ranked) = min 5 (length (content_items fs))
         \<and> (\<forall>it. item (score_item fs user_prefs it) = it
                \<and> recommendation_score (score_item fs user_prefs it) =
                    Some (py_round3 fs (fmul fs (score it)
                      (case map_of user_prefs (category it) of
                         None \<Rightarrow> flit fs (1/10) | Some v \<Rightarrow> v)))
                \<and> rec_key (score_item fs user_prefs it) =
                    py_round3 fs (fmul fs (score it)
                      (case map_of user_prefs (category it) of
                         None \<Rightarrow> flit fs (1/10) | Some v \<Rightarrow> v)))
         \<and> (\<forall>flt ord x. py_round3 (exact flt ord) x = of_int (round_half_even (x * 1000)) / 1000
                \<and> \<bar>py_round3 (exact flt ord) x - x\<bar> \<le> 1/2000)
         \<and> (accurate (rnd fs) \<and> map_of user_prefs = map_of [(''technology'', 1)] \<longrightarrow>
                item_ids (generate_content_recommendations fs rng load_user_data (Some n)) =
                  [''tech-001'', ''tech-002'', ''music-001'', ''travel-001'', ''sports-001''])"
proof -
  let ?scored = "map (score_item fs user_prefs) (content_items fs)"
  let ?ranked = "sort_reverse rec_key ?scored"
  have res: "generate_content_recommendations fs rng load_user_data (Some n) = Inr (take 5 ?ranked)"
    using assms by (simp add: generate_content_recommendations_def Let_def)
  have m: "mset ?ranked = mset ?scored" by (rule sort_reverse_mset)
  have so: "sorted_wrt (\<lambda>a b. rec_key b \<le> rec_key a) ?ranked" by (rule sort_reverse_sorted)
  have st: "\<forall>v. filter (\<lambda>r. rec_key r = v) ?ranked = filter (\<lambda>r. rec_key r = v) ?scored"
    by (simp add: sort_reverse_stable)
  have len: "length (take 5 ?ranked) = min 5 (length (content_items fs))"
    by (simp add: sort_reverse_def min.commute)
  have sc: "\<forall>it. item (score_item fs user_prefs it) = it
                \<and> recommendation_score (score_item fs user_prefs it) =
                    Some (py_round3 fs (fmul fs (score it)
                      (case map_of user_prefs (category it) of
                         None \<Rightarrow> flit fs (1/10) | Some v \<Rightarrow> v)))
                \<and> rec_key (score_item fs user_prefs it) =
                    py_round3 fs (fmul fs (score it)
                      (case map_of user_prefs (category it) of
                         None \<Rightarrow> flit fs (1/10) | Some v \<Rightarrow> v))"
    by (simp add: score_item_def preference_score_def rec_key_def Let_def)
  have ro: "\<forall>flt ord x. py_round3 (exact flt ord) x = of_int (round_half_even (x * 1000)) / 1000
                \<and> \<bar>py_round3 (exact flt ord) x - x\<bar> \<le> 1/2000"
    using py_round3_exact_grid py_round3_exact_near by simp
  have te: "accurate (rnd fs) \<and> map_of user_prefs = map_of [(''technology'', 1)] \<longrightarrow>
                item_ids (generate_content_recommendations fs rng load_user_data (Some n)) =
                  [''tech-001'', ''tech-002'', ''music-001'', ''travel-001'', ''sports-001'']"
    unfolding res using ranking_technology_accurate [of fs user_prefs] by (simp add: item_ids_def)
  from res m so st len sc ro te show ?thesis
    by (intro exI [of _ ?ranked] conjI)
qed

lemma binary64_technology:
  "parse_preferences binary64 ''technology:1.0'' = Inr [(''technology'', 1)]"
  by (simp add: parse_preferences_def split_first_def binary64_def binary64_order_def decimal_literal_def
      digit_value_def round64_1)

theorem content_personalized_ranking_witness:
  "item_ids (generate_content_recommendations exact_decimal zero_rng technology_store (Some 1)) =
     [''tech-001'', ''tech-002'', ''music-001'', ''travel-001'', ''sports-001'']
   \<and> item_ids (generate_content_recommendations binary64 zero_rng technology_store (Some 1)) =
     [''tech-001'', ''tech-002'', ''music-001'', ''travel-001'', ''sports-001'']"
proof -
  have p: "parse_preferences exact_decimal
             (preference_string (example_user 1 (Some ''technology:1.0''))) =
           Inr [(''technology'', 1)]"
    using example_technology by (simp add: technology_user)
  have q: "parse_preferences binary64
             (preference_string (example_user 1 (Some ''technology:1.0''))) =
           Inr [(''technology'', 1)]"
    using binary64_technology by (simp add: technology_user)
  have n: "(1::int) \<noteq> 0" by simp
  have a: "accurate (rnd exact_decimal)" "accurate (rnd binary64)"
    by (simp_all add: exact_decimal_def accurate_exact accurate_binary64)
  obtain ranked where
    "accurate (rnd exact_decimal)
       \<and> map_of [(''technology'', 1::real)] = map_of [(''technology'', 1)] \<longrightarrow>
       item_ids (generate_content_recommendations exact_decimal zero_rng technology_store (Some 1)) =
         [''tech-001'', ''tech-002'', ''music-001'', ''travel-001'', ''sports-001'']"
    using content_personalized_ranking [of 1 technology_store
        "example_user 1 (Some ''technology:1.0'')" "[]" exact_decimal "[(''technology'', 1)]"
        zero_rng, OF n technology_user(1) technology_user(2) p]
    by (elim exE conjE)
  moreover obtain ranked where
    "accurate (rnd binary64)
       \<and> map_of [(''technology'', 1::real)] = map_of [(''technology'', 1)] \<longrightarrow>
       item_ids (generate_content_recommendations binary64 zero_rng technology_store (Some 1)) =
         [''tech-001'', ''tech-002'', ''music-001'', ''travel-001'', ''sports-001'']"
    using content_personalized_ranking [of 1 technology_store
        "example_user 1 (Some ''technology:1.0'')" "[]" binary64 "[(''technology'', 1)]"
        zero_rng, OF n technology_user(1) technology_user(2) q]
    by (elim exE conjE)
  ultimately show ?thesis
    using a by simp
qed

theorem content_personalized_counterexample:
  "technology_store 0 = [example_user 0 (Some ''technology:1.0'')]
   \<and> parse_preferences exact_decimal
        (preference_string (example_user 0 (Some ''technology:1.0''))) = Inr [(''technology'', 1)]
   \<and> item_ids (generate_content_recommendations exact_decimal zero_rng technology_store (Some 0)) =
        [''tech-001'', ''cook-001'', ''travel-001'']
   \<and> generate_content_recommendations exact_decimal zero_rng technology_store (Some 0) \<noteq>
        Inr (take 5 (sort_reverse rec_key
               (map (score_item exact_decimal [(''technology'', 1)])
                  (content_items exact_decimal))))"
proof -
  have ids: "item_ids (generate_content_recommendations exact_decimal zero_rng technology_store (Some 0)) =
        [''tech-001'', ''cook-001'', ''travel-001'']"
    by (simp add: generate_content_recommendations_def content_items_def sample_example_zero
        plain_item_def item_ids_def)
  have "item_ids (Inr (take 5 (sort_reverse rec_key
               (map (score_item exact_decimal [(''technology'', 1)])
                  (content_items exact_decimal))))) =
        [''tech-001'', ''tech-002'', ''music-001'', ''travel-001'', ''sports-001'']"
    using ranking_technology_accurate [of exact_decimal "[(''technology'', 1)]"]
    by (simp add: item_ids_def exact_decimal_def accurate_exact)
  with ids have "generate_content_recommendations exact_decimal zero_rng technology_store (Some 0) \<noteq>
        Inr (take 5 (sort_reverse rec_key
               (map (score_item exact_decimal [(''technology'', 1)])
                  (content_items exact_decimal))))"
    by auto
  with ids show ?thesis
    using example_technology by (simp add: technology_user)
qed

subsection \<open>The similarity in exact arithmetic\<close>

lemma foldl_add: "foldl (\<lambda>a b. a + b) a xs = a + sum_list (xs :: real list)"
  by (induction xs arbitrary: a) simp_all

lemma fsum_exact: "fsum (exact flt ord) xs = sum_list xs"
proof -
  have "fadd (exact flt ord) = (\<lambda>a b. a + b)"
    by (simp add: fadd_def exact_def fun_eq_iff)
  then show ?thesis by (simp add: fsum_def foldl_add)
qed

lemma getitem_dom: "c \<in> dom (map_of d) \<Longrightarrow> getitem d c = Inr (the (map_of d c))"
  by (auto simp: getitem_def)

lemma dom_map_of_keys: "dom (map_of d) = set (map fst d)"
  by (simp add: dom_map_of_conv_image_fst)

lemma common_categories_set:
  "set (common_categories fs prefs1 prefs2) = dom (map_of prefs1) \<inter> dom (map_of prefs2)"
  by (auto simp: common_categories_def first_operand_order_def dom_map_of_keys Let_def)

lemma common_categories_distinct:
  "distinct (map fst prefs1) \<Longrightarrow> distinct (common_categories fs prefs1 prefs2)"
  by (simp add: common_categories_def first_operand_order_def Let_def)

lemma dot_product_value:
  assumes "set cs \<subseteq> dom (map_of prefs1) \<inter> dom (map_of prefs2)"
  shows "dot_product fs prefs1 prefs2 cs =
           Inr (fsum fs (map (\<lambda>c. fmul fs (the (map_of prefs1 c)) (the (map_of prefs2 c))) cs))"
proof -
  have "mapM (\<lambda>cat. case getitem prefs1 cat of
                          Inl e \<Rightarrow> Inl e
                        | Inr a \<Rightarrow> (case getitem prefs2 cat of
                                     Inl e \<Rightarrow> Inl e
                                   | Inr b \<Rightarrow> Inr (fmul fs a b))) cs =
        Inr (map (\<lambda>c. fmul fs (the (map_of prefs1 c)) (the (map_of prefs2 c))) cs)"
  proof (rule mapM_total)
    fix c assume "c \<in> set cs"
    with assms have "c \<in> dom (map_of prefs1)" "c \<in> dom (map_of prefs2)" by auto
    then show "(case getitem prefs1 c of
                          Inl e \<Rightarrow> Inl e
                        | Inr a \<Rightarrow> (case getitem prefs2 c of
                                     Inl e \<Rightarrow> Inl e
                                   | Inr b \<Rightarrow> Inr (fmul fs a b))) =
        Inr (fmul fs (the (map_of prefs1 c)) (the (map_of prefs2 c)))"
      by (simp add: getitem_dom)
  qed
  then show ?thesis by (simp add: dot_product_def)
qed

lemma magnitude_value:
  "magnitude fs prefs =
     Inr (fpow_half fs (fsum fs (map (\<lambda>c. fpow2 fs (the (map_of prefs c))) (map fst prefs))))"
proof -
  have "mapM (\<lambda>cat. case getitem prefs cat of
                          Inl e \<Rightarrow> Inl e
                        | Inr a \<Rightarrow> Inr (fpow2 fs a)) (map fst prefs) =
        Inr (map (\<lambda>c. fpow2 fs (the (map_of prefs c))) (map fst prefs))"
  proof (rule mapM_total)
    fix c assume "c \<in> set (map fst prefs)"
    then have "c \<in> dom (map_of prefs)" by (simp only: dom_map_of_keys)
    then show "(case getitem prefs c of
                          Inl e \<Rightarrow> Inl e
                        | Inr a \<Rightarrow> Inr (fpow2 fs a)) =
        Inr (fpow2 fs (the (map_of prefs c)))"
      by (simp add: getitem_dom)
  qed
  then show ?thesis by (simp add: magnitude_def)
qed

lemma dot_product_exact:
  assumes "distinct (map fst prefs1)"
  shows "dot_product (exact flt ord) prefs1 prefs2 (common_categories (exact flt ord) prefs1 prefs2) =
           Inr (dot_spec (map_of prefs1) (map_of prefs2))"
proof -
  let ?cs = "common_categories (exact flt ord) prefs1 prefs2"
  have d: "distinct ?cs" using assms by (rule common_categories_distinct)
  have "dot_product (exact flt ord) prefs1 prefs2 ?cs =
          Inr (sum_list (map (\<lambda>c. the (map_of prefs1 c) * the (map_of prefs2 c)) ?cs))"
    by (simp add: dot_product_value common_categories_set fsum_exact)
      (simp add: fmul_def exact_def)
  also have "sum_list (map (\<lambda>c. the (map_of prefs1 c) * the (map_of prefs2 c)) ?cs) =
          (\<Sum>c \<in> set ?cs. the (map_of prefs1 c) * the (map_of prefs2 c))"
    using d by (simp add: sum_list_distinct_conv_sum_set)
  finally show ?thesis
    by (simp add: dot_spec_def common_categories_set)
qed

lemma magnitude_exact:
  assumes "distinct (map fst prefs)"
  shows "magnitude (exact flt ord) prefs = Inr (norm_spec (map_of prefs))"
proof -
  have "magnitude (exact flt ord) prefs =
          Inr (sqrt (sum_list (map (\<lambda>c. (the (map_of prefs c))\<^sup>2) (map fst prefs))))"
    by (simp add: magnitude_value fsum_exact) (simp add: fpow_half_def fpow2_def exact_def)
  also have "sum_list (map (\<lambda>c. (the (map_of prefs c))\<^sup>2) (map fst prefs)) =
          (\<Sum>c \<in> set (map fst prefs). (the (map_of prefs c))\<^sup>2)"
    using assms by (simp only: sum_list_distinct_conv_sum_set)
  finally show ?thesis
    by (simp add: norm_spec_def dom_map_of_keys)
qed

lemma parse_preferences_distinct:
  "parse_preferences fs s = Inr m \<Longrightarrow> distinct (map fst m)"
  using parse_pieces_distinct [of fs "split_on CHR '','' s" "[]" m]
  by (simp add: parse_preferences_def)

lemma user_preference_map_distinct:
  "user_preference_map fs u = Inr m \<Longrightarrow> distinct (map fst m)"
  by (auto simp: user_preference_map_def parse_preferences_distinct split: if_splits)

lemma similarity_exact_value:
  assumes "user_preference_map (exact flt ord) user1 = Inr prefs1"
    and "user_preference_map (exact flt ord) user2 = Inr prefs2"
  shows "calculate_user_similarity (exact flt ord) user1 user2 =
           Inr (similarity_spec (map_of prefs1) (map_of prefs2))"
proof (cases "no_preferences user1 \<or> no_preferences user2")
  case True
  then have "prefs1 = [] \<or> prefs2 = []"
    using assms by (auto simp: user_preference_map_def)
  then have "similarity_spec (map_of prefs1) (map_of prefs2) = 1/10"
    by (auto simp: similarity_spec_def)
  with True show ?thesis
    by (simp add: calculate_user_similarity_def flit_def exact_def)
next
  case False
  then have p1: "parse_preferences (exact flt ord) (preference_string user1) = Inr prefs1"
    and p2: "parse_preferences (exact flt ord) (preference_string user2) = Inr prefs2"
    using assms by (simp_all add: user_preference_map_def)
  have d1: "distinct (map fst prefs1)" and d2: "distinct (map fst prefs2)"
    using p1 p2 by (simp_all add: parse_preferences_distinct)
  let ?A = "map_of prefs1" and ?B = "map_of prefs2"
  let ?cs = "common_categories (exact flt ord) prefs1 prefs2"
  have cs: "?cs = [] \<longleftrightarrow> dom ?A \<inter> dom ?B = {}"
    using common_categories_set [of "exact flt ord" prefs1 prefs2] by (metis set_empty)
  have empty: "?A = Map.empty \<or> ?B = Map.empty \<Longrightarrow> dom ?A \<inter> dom ?B = {}"
    by auto
  show ?thesis
  proof (cases "dom ?A \<inter> dom ?B = {}")
    case True
    then have "similarity_spec ?A ?B = 1/10" by (simp add: similarity_spec_def)
    with True False p1 p2 cs show ?thesis
      by (simp add: calculate_user_similarity_def flit_def exact_def)
  next
    case ne: False
    then have s: "similarity_spec ?A ?B =
        (if norm_spec ?A = 0 \<or> norm_spec ?B = 0 then 1/10
         else dot_spec ?A ?B / (norm_spec ?A * norm_spec ?B))"
      using empty by (auto simp: similarity_spec_def)
    have "calculate_user_similarity (exact flt ord) user1 user2 =
        (if norm_spec ?A = 0 \<or> norm_spec ?B = 0 then Inr (1/10)
         else Inr (dot_spec ?A ?B / (norm_spec ?A * norm_spec ?B)))"
      using False p1 p2 cs ne
      by (simp add: calculate_user_similarity_def dot_product_exact [OF d1]
          magnitude_exact [OF d1] magnitude_exact [OF d2])
        (simp add: flit_def fdiv_def fmul_def exact_def)
    with s show ?thesis by simp
  qed
qed

lemma similarity_spec_commute: "similarity_spec A B = similarity_spec B A"
  by (simp add: similarity_spec_def dot_spec_def Int_commute mult.commute disj_commute)

lemma norm_spec_square: "norm_spec A * norm_spec A = (\<Sum>c \<in> dom A. (the (A c))\<^sup>2)"
  by (simp add: norm_spec_def sum_nonneg)

lemma similarity_spec_self:
  assumes "A \<noteq> Map.empty" and "norm_spec A \<noteq> 0"
  shows "similarity_spec A A = 1"
proof -
  have "dom A \<noteq> {}" using assms(1) by simp
  moreover have "dot_spec A A = norm_spec A * norm_spec A"
    by (simp add: norm_spec_square dot_spec_def power2_eq_square)
  ultimately show ?thesis
    using assms by (simp add: similarity_spec_def)
qed

lemma fmul_commute: "fmul fs a b = fmul fs b a"
  by (simp add: fmul_def mult.commute)

lemma dot_product_commute:
  assumes "set cs \<subseteq> dom (map_of prefs1) \<inter> dom (map_of prefs2)"
  shows "dot_product fs prefs1 prefs2 cs = dot_product fs prefs2 prefs1 cs"
proof -
  have "set cs \<subseteq> dom (map_of prefs2) \<inter> dom (map_of prefs1)" using assms by auto
  then show ?thesis
    using assms by (simp add: dot_product_value fmul_commute [of fs])
qed

lemma parse_preferences_Inl: "parse_preferences fs s = Inl e \<Longrightarrow> e = ValueError"
  by (simp add: parse_preferences_def parse_pieces_error)

lemma similarity_same_order_commute:
  assumes "user_preference_map fs user1 = Inr prefs1"
    and "user_preference_map fs user2 = Inr prefs2"
    and "common_categories fs prefs1 prefs2 = common_categories fs prefs2 prefs1"
  shows "calculate_user_similarity fs user1 user2 = calculate_user_similarity fs user2 user1"
proof (cases "no_preferences user1 \<or> no_preferences user2")
  case True
  then show ?thesis by (auto simp: calculate_user_similarity_def)
next
  case False
  then have p1: "parse_preferences fs (preference_string user1) = Inr prefs1"
    and p2: "parse_preferences fs (preference_string user2) = Inr prefs2"
    using assms by (simp_all add: user_preference_map_def)
  let ?cs = "common_categories fs prefs1 prefs2"
  have sub: "set ?cs \<subseteq> dom (map_of prefs1) \<inter> dom (map_of prefs2)"
    by (simp add: common_categories_set)
  have dot: "dot_product fs prefs1 prefs2 ?cs = dot_product fs prefs2 prefs1 ?cs"
    using sub by (rule dot_product_commute)
  obtain d where d: "dot_product fs prefs2 prefs1 ?cs = Inr d"
    using sub by (simp add: dot_product_commute [symmetric] dot_product_value)
  obtain m1 m2 where m: "magnitude fs prefs1 = Inr m1" "magnitude fs prefs2 = Inr m2"
    by (simp add: magnitude_value)
  have d': "dot_product fs prefs1 prefs2 ?cs = Inr d" using dot d by simp
  have L: "calculate_user_similarity fs user1 user2 =
      (if ?cs = [] then Inr (flit fs (1/10))
       else if m1 = 0 \<or> m2 = 0 then Inr (flit fs (1/10))
       else fdiv fs d (fmul fs m1 m2))"
    using False p1 p2 d' m by (simp add: calculate_user_similarity_def Let_def)
  have R: "calculate_user_similarity fs user2 user1 =
      (if ?cs = [] then Inr (flit fs (1/10))
       else if m2 = 0 \<or> m1 = 0 then Inr (flit fs (1/10))
       else fdiv fs d (fmul fs m2 m1))"
    using False p1 p2 d m assms(3) [symmetric]
    by (simp add: calculate_user_similarity_def Let_def)
  show ?thesis
    unfolding L R by (simp add: fmul_commute [of fs m1 m2] disj_commute)
qed

lemma cauchy_schwarz_step:
  fixes p q a b :: real
  assumes "0 \<le> p" "0 \<le> q"
  shows "p * q + \<bar>a * b\<bar> \<le> sqrt (p\<^sup>2 + a\<^sup>2) * sqrt (q\<^sup>2 + b\<^sup>2)"
proof -
  have "0 \<le> (p * \<bar>b\<bar> - q * \<bar>a\<bar>)\<^sup>2" by simp
  also have "(p * \<bar>b\<bar> - q * \<bar>a\<bar>)\<^sup>2 =
      (p\<^sup>2 + a\<^sup>2) * (q\<^sup>2 + b\<^sup>2) - (p * q + \<bar>a * b\<bar>)\<^sup>2"
    by (simp add: power2_eq_square algebra_simps abs_mult)
  finally have "(p * q + \<bar>a * b\<bar>)\<^sup>2 \<le> (p\<^sup>2 + a\<^sup>2) * (q\<^sup>2 + b\<^sup>2)" by simp
  then have "p * q + \<bar>a * b\<bar> \<le> sqrt ((p\<^sup>2 + a\<^sup>2) * (q\<^sup>2 + b\<^sup>2))"
    by (rule real_le_rsqrt)
  then show ?thesis by (simp add: real_sqrt_mult)
qed

lemma cauchy_schwarz_sum:
  fixes f g :: "'a \<Rightarrow> real"
  assumes "finite I"
  shows "(\<Sum>i \<in> I. \<bar>f i * g i\<bar>) \<le> sqrt (\<Sum>i \<in> I. (f i)\<^sup>2) * sqrt (\<Sum>i \<in> I. (g i)\<^sup>2)"
  using assms
proof (induction I rule: finite_induct)
  case empty
  then show ?case by simp
next
  case (insert x F)
  let ?p = "sqrt (\<Sum>i \<in> F. (f i)\<^sup>2)" and ?q = "sqrt (\<Sum>i \<in> F. (g i)\<^sup>2)"
  have p: "0 \<le> ?p" "?p\<^sup>2 = (\<Sum>i \<in> F. (f i)\<^sup>2)"
    and q: "0 \<le> ?q" "?q\<^sup>2 = (\<Sum>i \<in> F. (g i)\<^sup>2)"
    by (simp_all add: sum_nonneg)
  have "(\<Sum>i \<in> insert x F. \<bar>f i * g i\<bar>) = (\<Sum>i \<in> F. \<bar>f i * g i\<bar>) + \<bar>f x * g x\<bar>"
    using insert.hyps by simp
  also have "\<dots> \<le> ?p * ?q + \<bar>f x * g x\<bar>"
    using insert.IH by simp
  also have "\<dots> \<le> sqrt (?p\<^sup>2 + (f x)\<^sup>2) * sqrt (?q\<^sup>2 + (g x)\<^sup>2)"
    using p(1) q(1) by (rule cauchy_schwarz_step)
  also have "\<dots> = sqrt (\<Sum>i \<in> insert x F. (f i)\<^sup>2) * sqrt (\<Sum>i \<in> insert x F. (g i)\<^sup>2)"
    using insert.hyps by (simp add: p(2) q(2) add.commute)
  finally show ?case .
qed

lemma dot_spec_le_norms:
  assumes "finite (dom A)" "finite (dom B)"
  shows "dot_spec A B \<le> norm_spec A * norm_spec B"
proof -
  let ?I = "dom A \<inter> dom B"
  let ?f = "\<lambda>c. the (A c)" and ?g = "\<lambda>c. the (B c)"
  have fin: "finite ?I" using assms by simp
  have "dot_spec A B \<le> (\<Sum>c \<in> ?I. \<bar>?f c * ?g c\<bar>)"
    unfolding dot_spec_def by (rule sum_mono) simp
  also have "\<dots> \<le> sqrt (\<Sum>c \<in> ?I. (?f c)\<^sup>2) * sqrt (\<Sum>c \<in> ?I. (?g c)\<^sup>2)"
    using fin by (rule cauchy_schwarz_sum)
  also have "\<dots> \<le> norm_spec A * norm_spec B"
  proof (rule mult_mono)
    show "sqrt (\<Sum>c \<in> ?I. (?f c)\<^sup>2) \<le> norm_spec A"
      unfolding norm_spec_def using assms(1)
      by (intro real_sqrt_le_mono sum_mono2) auto
    show "sqrt (\<Sum>c \<in> ?I. (?g c)\<^sup>2) \<le> norm_spec B"
      unfolding norm_spec_def using assms(2)
      by (intro real_sqrt_le_mono sum_mono2) auto
    show "0 \<le> norm_spec A" by (simp add: norm_spec_def sum_nonneg)
    show "0 \<le> sqrt (\<Sum>c \<in> ?I. (?g c)\<^sup>2)" by (simp add: sum_nonneg)
  qed
  finally show ?thesis .
qed

lemma similarity_spec_bounds:
  assumes "finite (dom A)" "finite (dom B)"
    and "\<And>c. c \<in> dom A \<Longrightarrow> 0 \<le> the (A c)" and "\<And>c. c \<in> dom B \<Longrightarrow> 0 \<le> the (B c)"
  shows "0 \<le> similarity_spec A B \<and> similarity_spec A B \<le> 1"
proof (cases "A = Map.empty \<or> B = Map.empty \<or> dom A \<inter> dom B = {}
              \<or> norm_spec A = 0 \<or> norm_spec B = 0")
  case True
  then have "similarity_spec A B = 1/10" by (auto simp: similarity_spec_def)
  then show ?thesis by simp
next
  case False
  then have s: "similarity_spec A B = dot_spec A B / (norm_spec A * norm_spec B)"
    by (simp add: similarity_spec_def)
  have "0 \<le> norm_spec A" "0 \<le> norm_spec B" by (simp_all add: norm_spec_def sum_nonneg)
  with False have pos: "0 < norm_spec A * norm_spec B" by simp
  have "0 \<le> dot_spec A B"
    unfolding dot_spec_def using assms(3,4) by (intro sum_nonneg mult_nonneg_nonneg) auto
  moreover have "dot_spec A B \<le> norm_spec A * norm_spec B"
    using assms(1,2) by (rule dot_spec_le_norms)
  ultimately show ?thesis
    unfolding s using pos by simp
qed

lemma example_preference_maps:
  "user_preference_map exact_decimal (example_user 1 (Some ''a:3,b:4'')) = Inr [(''a'', 3), (''b'', 4)]"
  "user_preference_map exact_decimal (example_user 2 (Some ''a:1'')) = Inr [(''a'', 1)]"
  "user_preference_map exact_decimal (example_user 4 (Some ''c:1'')) = Inr [(''c'', 1)]"
  "user_preference_map exact_decimal (example_user 5 None) = Inr []"
  by (simp_all add: user_preference_map_def no_preferences_def preference_string_def
      example_user_def parse_preferences_def split_first_def exact_decimal_def exact_def
      decimal_literal_def digit_value_def)

lemma example_norms:
  "norm_spec (map_of [(''a'', 3), (''b'', 4)]) = 5"
  "norm_spec (map_of [(''a'', 1)]) = 1"
proof -
  have "dom (map_of [(''a'', 3::real), (''b'', 4)]) = {''a'', ''b''}" by auto
  then show "norm_spec (map_of [(''a'', 3), (''b'', 4)]) = 5"
    by (simp add: norm_spec_def sqrt_25)
  have "dom (map_of [(''a'', 1::real)]) = {''a''}" by auto
  then show "norm_spec (map_of [(''a'', 1)]) = 1"
    by (simp add: norm_spec_def)
qed



text \<open>
  C7, as amended. For preference maps that share a category and have nonzero norms,
  \<open>similarity(A, B) = similarity(B, A)\<close> in exact arithmetic, whatever the order of
  the shared categories. Under every rounding the two calls agree when they go through
  the shared categories in the same order. (In binary64 arithmetic the two calls differ
  when they take the shared categories in different orders, see the last section.)
\<close>

theorem similarity_symmetric:
  "(\<forall>prefs1 prefs2.
       user_preference_map (exact flt ord) user1 = Inr prefs1
       \<and> user_preference_map (exact flt ord) user2 = Inr prefs2
       \<and> dom (map_of prefs1) \<inter> dom (map_of prefs2) \<noteq> {}
       \<and> norm_spec (map_of prefs1) \<noteq> 0 \<and> norm_spec (map_of prefs2) \<noteq> 0 \<longrightarrow>
       calculate_user_similarity (exact flt ord) user1 user2 =
         calculate_user_similarity (exact flt ord) user2 user1)
   \<and> (\<forall>fs prefs1 prefs2.
       user_preference_map fs user1 = Inr prefs1
       \<and> user_preference_map fs user2 = Inr prefs2
       \<and> common_categories fs prefs1 prefs2 = common_categories fs prefs2 prefs1 \<longrightarrow>
       calculate_user_similarity fs user1 user2 = calculate_user_similarity fs user2 user1)"
proof (intro conjI allI impI)
  fix prefs1 prefs2
  assume "user_preference_map (exact flt ord) user1 = Inr prefs1
       \<and> user_preference_map (exact flt ord) user2 = Inr prefs2
       \<and> dom (map_of prefs1) \<inter> dom (map_of prefs2) \<noteq> {}
       \<and> norm_spec (map_of prefs1) \<noteq> 0 \<and> norm_spec (map_of prefs2) \<noteq> 0"
  then have "calculate_user_similarity (exact flt ord) user1 user2 =
               Inr (similarity_spec (map_of prefs1) (map_of prefs2))"
    and "calculate_user_similarity (exact flt ord) user2 user1 =
               Inr (similarity_spec (map_of prefs2) (map_of prefs1))"
    by (simp_all add: similarity_exact_value)
  then show "calculate_user_similarity (exact flt ord) user1 user2 =
         calculate_user_similarity (exact flt ord) user2 user1"
    by (simp add: similarity_spec_commute)
next
  fix fs prefs1 prefs2
  assume "user_preference_map fs user1 = Inr prefs1
       \<and> user_preference_map fs user2 = Inr prefs2
       \<and> common_categories fs prefs1 prefs2 = common_categories fs prefs2 prefs1"
  then show "calculate_user_similarity fs user1 user2 = calculate_user_similarity fs user2 user1"
    using similarity_same_order_commute by blast
qed

theorem similarity_symmetric_witness:
  "dom (map_of [(''a'', 3::real), (''b'', 4)]) \<inter> dom (map_of [(''a'', 1::real)]) \<noteq> {}
   \<and> norm_spec (map_of [(''a'', 3), (''b'', 4)]) \<noteq> 0
   \<and> norm_spec (map_of [(''a'', 1)]) \<noteq> 0
   \<and> common_categories exact_decimal [(''a'', 3), (''b'', 4)] [(''a'', 1)] =
       common_categories exact_decimal [(''a'', 1)] [(''a'', 3), (''b'', 4)]
   \<and> calculate_user_similarity exact_decimal (example_user 1 (Some ''a:3,b:4''))
        (example_user 2 (Some ''a:1'')) =
      calculate_user_similarity exact_decimal (example_user 2 (Some ''a:1''))
        (example_user 1 (Some ''a:3,b:4''))
   \<and> calculate_user_similarity exact_decimal (example_user 2 (Some ''a:1''))
        (example_user 1 (Some ''a:3,b:4'')) = Inr (3/5)"
proof -
  have h1: "dom (map_of [(''a'', 3::real), (''b'', 4)]) \<inter> dom (map_of [(''a'', 1::real)]) \<noteq> {}"
    by auto
  have h2: "norm_spec (map_of [(''a'', 3), (''b'', 4)]) \<noteq> 0" "norm_spec (map_of [(''a'', 1)]) \<noteq> 0"
    unfolding example_norms by simp_all
  have h3: "common_categories exact_decimal [(''a'', 3), (''b'', 4)] [(''a'', 1)] =
       common_categories exact_decimal [(''a'', 1)] [(''a'', 3), (''b'', 4)]"
    by (simp add: common_categories_first set_order_values)
  have s: "calculate_user_similarity exact_decimal (example_user 1 (Some ''a:3,b:4''))
        (example_user 2 (Some ''a:1'')) =
      calculate_user_similarity exact_decimal (example_user 2 (Some ''a:1''))
        (example_user 1 (Some ''a:3,b:4''))"
    using similarity_symmetric [of decimal_literal first_operand_order "example_user 1 (Some ''a:3,b:4'')"
        "example_user 2 (Some ''a:1'')", THEN conjunct1, rule_format,
        of "[(''a'', 3), (''b'', 4)]" "[(''a'', 1)]"]
      example_preference_maps h1 h2
    by (simp add: exact_decimal_def)
  with example_similarity_2 h1 h2 h3 show ?thesis by simp
qed

text \<open>
  C8, as amended. In exact arithmetic, for a non-empty preference map with a nonzero
  norm, \<open>similarity(A, A) = 1\<close>. (In binary64 arithmetic the result can differ from
  \<open>1.0\<close> in the last place, see below.)
\<close>

theorem self_similarity_exact:
  assumes "user_preference_map (exact flt ord) u = Inr prefs"
    and "map_of prefs \<noteq> Map.empty"
    and "norm_spec (map_of prefs) \<noteq> 0"
  shows "calculate_user_similarity (exact flt ord) u u = Inr 1"
  using assms by (simp add: similarity_exact_value similarity_spec_self)

theorem self_similarity_exact_witness:
  "map_of [(''a'', 3::real), (''b'', 4)] \<noteq> Map.empty
   \<and> norm_spec (map_of [(''a'', 3), (''b'', 4)]) \<noteq> 0
   \<and> calculate_user_similarity exact_decimal (example_user 1 (Some ''a:3,b:4''))
        (example_user 1 (Some ''a:3,b:4'')) = Inr 1"
proof -
  have "map_of [(''a'', 3::real), (''b'', 4)] ''a'' = Some 3" by simp
  then have h1: "map_of [(''a'', 3::real), (''b'', 4)] \<noteq> Map.empty"
    by (metis option.distinct(1))
  have h2: "norm_spec (map_of [(''a'', 3), (''b'', 4)]) \<noteq> 0"
    unfolding example_norms by simp
  have p: "user_preference_map (exact decimal_literal first_operand_order) (example_user 1 (Some ''a:3,b:4'')) =
      Inr [(''a'', 3), (''b'', 4)]"
    using example_preference_maps(1) by (simp add: exact_decimal_def)
  show ?thesis
    using self_similarity_exact [OF p h1 h2] h1 h2 by (simp add: exact_decimal_def)
qed

text \<open>
  C6, as amended. In exact arithmetic, for preference maps whose scores are all
  non-negative, the similarity lies in the closed interval from 0 to 1: the floor
  \<open>0.1\<close> does, and in the cosine branch the dot product over the shared categories is
  at most the product of the norms of the full maps (Cauchy-Schwarz). (The result is
  not clamped; in binary64 arithmetic it can exceed \<open>1.0\<close> in the last place, see
  below.)
\<close>

theorem similarity_in_unit_interval_exact:
  assumes "user_preference_map (exact flt ord) user1 = Inr prefs1"
    and "user_preference_map (exact flt ord) user2 = Inr prefs2"
    and "\<forall>v \<in> snd ` set prefs1. 0 \<le> v" and "\<forall>v \<in> snd ` set prefs2. 0 \<le> v"
  shows "\<exists>r. calculate_user_similarity (exact flt ord) user1 user2 = Inr r \<and> 0 \<le> r \<and> r \<le> 1"
proof -
  have nonneg: "0 \<le> the (map_of p c)" if "c \<in> dom (map_of p)" "\<forall>v \<in> snd ` set p. 0 \<le> v"
    for p :: prefs and c
  proof -
    from that(1) obtain v where "map_of p c = Some v" by auto
    moreover from this have "(c, v) \<in> set p" by (rule map_of_SomeD)
    ultimately show ?thesis using that(2) by force
  qed
  have "0 \<le> similarity_spec (map_of prefs1) (map_of prefs2)
        \<and> similarity_spec (map_of prefs1) (map_of prefs2) \<le> 1"
    using assms(3,4) by (intro similarity_spec_bounds) (simp_all add: finite_dom_map_of nonneg)
  then show ?thesis
    using assms(1,2) by (simp add: similarity_exact_value)
qed

theorem similarity_in_unit_interval_exact_witness:
  "\<exists>r. calculate_user_similarity exact_decimal (example_user 1 (Some ''a:3,b:4''))
        (example_user 2 (Some ''a:1'')) = Inr r \<and> r = 3/5 \<and> 0 \<le> r \<and> r \<le> 1"
proof -
  have p: "user_preference_map (exact decimal_literal first_operand_order) (example_user 1 (Some ''a:3,b:4'')) =
      Inr [(''a'', 3), (''b'', 4)]"
    "user_preference_map (exact decimal_literal first_operand_order) (example_user 2 (Some ''a:1'')) =
      Inr [(''a'', 1)]"
    using example_preference_maps by (simp_all add: exact_decimal_def)
  have n: "\<forall>v \<in> snd ` set [(''a'', 3::real), (''b'', 4)]. 0 \<le> v"
    "\<forall>v \<in> snd ` set [(''a'', 1::real)]. 0 \<le> v"
    by simp_all
  obtain r where "calculate_user_similarity (exact decimal_literal first_operand_order)
        (example_user 1 (Some ''a:3,b:4'')) (example_user 2 (Some ''a:1'')) = Inr r"
    "0 \<le> r" "r \<le> 1"
    using similarity_in_unit_interval_exact [OF p n] by blast
  then show ?thesis
    using example_similarity_2 by (simp add: exact_decimal_def)
qed

subsection \<open>The similarity in binary64 arithmetic\<close>

lemma sqrt2_b64_bounds:
  "(2 * 6369051672525773 - 1) / 2 ^ 53 < sqrt 2"
  "sqrt 2 < (2 * 6369051672525773 + 1) / 2 ^ 53"
  by (rule real_less_rsqrt, simp add: power2_eq_square)
     (rule real_less_lsqrt, simp_all add: power2_eq_square)

lemma sqrt3_b64_bounds:
  "(2 * 7800463371553962 - 1) / 2 ^ 53 < sqrt 3"
  "sqrt 3 < (2 * 7800463371553962 + 1) / 2 ^ 53"
  by (rule real_less_rsqrt, simp add: power2_eq_square)
     (rule real_less_lsqrt, simp_all add: power2_eq_square)

lemma round64_sqrt_2: "round64 (sqrt 2) = sqrt2_b64"
proof -
  have "1 \<le> sqrt 2" "sqrt 2 < 2"
    by (simp, rule real_less_lsqrt, simp_all)
  then show ?thesis
    using round64_unique [of 0 "sqrt 2" 6369051672525773] sqrt2_b64_bounds
    by (simp add: powr_values sqrt2_b64_def)
qed

lemma round64_sqrt_3: "round64 (sqrt 3) = sqrt3_b64"
proof -
  have "1 \<le> sqrt 3" "sqrt 3 < 2"
    by (simp, rule real_less_lsqrt, simp_all)
  then show ?thesis
    using round64_unique [of 0 "sqrt 3" 7800463371553962] sqrt3_b64_bounds
    by (simp add: powr_values sqrt3_b64_def)
qed

lemma round64_square_sqrt_2: "round64 (sqrt2_b64 * sqrt2_b64) = above_two"
  using round64_unique [of 1 "sqrt2_b64 * sqrt2_b64" "2 ^ 52 + 1"]
  by (simp add: powr_values sqrt2_b64_def above_two_def)

lemma round64_square_sqrt_3: "round64 (sqrt3_b64 * sqrt3_b64) = below_three"
  using round64_unique [of 1 "sqrt3_b64 * sqrt3_b64" "3 * 2 ^ 51 - 1"]
  by (simp add: powr_values sqrt3_b64_def below_three_def)

lemma round64_quotient_2: "round64 (2 / above_two) = below_one"
  using round64_unique [of "- 1" "2 / above_two" "2 ^ 53 - 2"]
  by (simp add: powr_values above_two_def below_one_def)

lemma round64_quotient_3: "round64 (3 / below_three) = above_one"
  using round64_unique [of 0 "3 / below_three" "2 ^ 52 + 1"]
  by (simp add: powr_values below_three_def above_one_def)


lemma binary64_ops:
  "float_of binary64 ''1'' = Some 1"
  "fmul binary64 1 1 = 1"
  "fpow2 binary64 1 = 1"
  "fadd binary64 0 1 = 1"
  "fadd binary64 1 1 = 2"
  "fadd binary64 2 1 = 3"
  "fpow_half binary64 2 = sqrt2_b64"
  "fpow_half binary64 3 = sqrt3_b64"
  "fmul binary64 sqrt2_b64 sqrt2_b64 = above_two"
  "fmul binary64 sqrt3_b64 sqrt3_b64 = below_three"
  by (simp_all add: binary64_def binary64_order_def fmul_def fpow2_def fadd_def fpow_half_def
      decimal_literal_def digit_value_def round64_1 round64_2 round64_3
      round64_sqrt_2 round64_sqrt_3 round64_square_sqrt_2 round64_square_sqrt_3)

lemma binary64_quotients:
  "fdiv binary64 2 above_two = Inr below_one"
  "fdiv binary64 3 below_three = Inr above_one"
  "sqrt2_b64 \<noteq> 0" "sqrt3_b64 \<noteq> 0"
proof -
  have "above_two \<noteq> 0" "below_three \<noteq> 0"
    by (simp_all add: above_two_def below_three_def)
  then show "fdiv binary64 2 above_two = Inr below_one"
    "fdiv binary64 3 below_three = Inr above_one"
    by (simp_all add: fdiv_def binary64_def binary64_order_def round64_quotient_2 round64_quotient_3)
  show "sqrt2_b64 \<noteq> 0" "sqrt3_b64 \<noteq> 0"
    by (simp_all add: sqrt2_b64_def sqrt3_b64_def)
qed

lemma binary64_parse:
  "parse_preferences binary64 ''a:1,b:1'' = Inr [(''a'', 1), (''b'', 1)]"
  "parse_preferences binary64 ''a:1,b:1,c:1'' = Inr [(''a'', 1), (''b'', 1), (''c'', 1)]"
  by (simp_all add: parse_preferences_def split_first_def binary64_ops)

lemma binary64_self_similarity_2:
  "calculate_user_similarity binary64 (example_user 1 (Some ''a:1,b:1''))
     (example_user 1 (Some ''a:1,b:1'')) = Inr below_one"
  by (simp add: calculate_user_similarity_def no_preferences_def preference_string_def
      example_user_def binary64_parse common_categories_first set_order_values
      dot_product_def magnitude_def
      getitem_def fsum_def binary64_ops binary64_quotients)

lemma binary64_self_similarity_3:
  "calculate_user_similarity binary64 (example_user 1 (Some ''a:1,b:1,c:1''))
     (example_user 1 (Some ''a:1,b:1,c:1'')) = Inr above_one"
  by (simp add: calculate_user_similarity_def no_preferences_def preference_string_def
      example_user_def binary64_parse common_categories_first set_order_values
      dot_product_def magnitude_def
      getitem_def fsum_def binary64_ops binary64_quotients)

lemma binary64_preference_maps:
  "user_preference_map binary64 (example_user 1 (Some ''a:1,b:1'')) =
     Inr [(''a'', 1), (''b'', 1)]"
  "user_preference_map binary64 (example_user 1 (Some ''a:1,b:1,c:1'')) =
     Inr [(''a'', 1), (''b'', 1), (''c'', 1)]"
  by (simp_all add: user_preference_map_def no_preferences_def preference_string_def
      example_user_def binary64_parse)

text \<open>
  C8 as stated fails in binary64 arithmetic: for the preference string \<^verbatim>\<open>a:1,b:1\<close>
  the dot product is \<open>2.0\<close>, each magnitude is \<open>2.0 ** 0.5 = 1.4142135623730951\<close>,
  their product is \<open>2.0000000000000004\<close>, and the similarity of the user to itself is
  \<open>0.9999999999999998\<close>, not \<open>1.0\<close>.
\<close>

theorem self_similarity_binary64_counterexample:
  "user_preference_map binary64 (example_user 1 (Some ''a:1,b:1'')) =
     Inr [(''a'', 1), (''b'', 1)]
   \<and> norm_spec (map_of [(''a'', 1), (''b'', 1)]) \<noteq> 0
   \<and> calculate_user_similarity binary64 (example_user 1 (Some ''a:1,b:1''))
       (example_user 1 (Some ''a:1,b:1'')) = Inr (1 - 1 / 2 ^ 52)
   \<and> calculate_user_similarity binary64 (example_user 1 (Some ''a:1,b:1''))
       (example_user 1 (Some ''a:1,b:1'')) \<noteq> Inr 1"
proof -
  have "below_one = 1 - 1 / 2 ^ 52" "below_one \<noteq> 1"
    by (simp_all add: below_one_def)
  moreover have "dom (map_of [(''a'', 1::real), (''b'', 1)]) = {''a'', ''b''}" by auto
  then have "norm_spec (map_of [(''a'', 1), (''b'', 1)]) \<noteq> 0"
    by (simp add: norm_spec_def)
  ultimately show ?thesis
    using binary64_self_similarity_2 binary64_preference_maps(1) by simp
qed

text \<open>
  C6 as stated fails in binary64 arithmetic: for the preference string
  \<^verbatim>\<open>a:1,b:1,c:1\<close> the dot product is \<open>3.0\<close>, each magnitude is
  \<open>3.0 ** 0.5 = 1.7320508075688772\<close>, their product is \<open>2.9999999999999996\<close>, and
  the similarity of the user to itself is \<open>1.0000000000000002\<close>, above \<open>1\<close>.
\<close>

theorem similarity_above_one_binary64_counterexample:
  "user_preference_map binary64 (example_user 1 (Some ''a:1,b:1,c:1'')) =
     Inr [(''a'', 1), (''b'', 1), (''c'', 1)]
   \<and> list_all (\<lambda>p. 0 \<le> snd p) [(''a'', 1::real), (''b'', 1), (''c'', 1)]
   \<and> calculate_user_similarity binary64 (example_user 1 (Some ''a:1,b:1,c:1''))
       (example_user 1 (Some ''a:1,b:1,c:1'')) = Inr (1 + 1 / 2 ^ 52)
   \<and> \<not> (1 + 1 / 2 ^ 52 \<le> (1::real))"
proof -
  have "above_one = 1 + 1 / 2 ^ 52" "\<not> (1 + 1 / 2 ^ 52 \<le> (1::real))"
    by (simp_all add: above_one_def)
  then show ?thesis
    using binary64_self_similarity_3 binary64_preference_maps(2) by simp
qed

subsection \<open>Symmetry and the specification's value in binary64 arithmetic\<close>

lemma powr_values_more:
  "(2::real) powr 53 = 2 ^ 53"
  "(2::real) powr 54 = 2 ^ 54"
  "(2::real) powr 106 = 2 ^ 106"
  "(2::real) powr 107 = 2 ^ 107"
  using powr_realpow [of 2 53] powr_realpow [of 2 54] powr_realpow [of 2 106]
    powr_realpow [of 2 107]
  by simp_all

lemma round64_powers:
  "round64 4 = 4"
  "round64 8 = 8"
  "round64 9007199254740992 = 9007199254740992"
  "round64 18014398509481984 = 18014398509481984"
  "round64 81129638414606681695789005144064 = 81129638414606681695789005144064"
  using round64_pow2 [of 2] round64_pow2 [of 3] round64_pow2 [of 53] round64_pow2 [of 54]
    round64_pow2 [of 106]
  by simp_all

text \<open>
  \<open>2 ^ 53 + 2\<close> is a float, \<open>2 ^ 53 + 1\<close> is halfway between two floats and goes to
  the even one, \<open>2 ^ 106 + 1\<close> goes to \<open>2 ^ 106\<close>.
\<close>

lemma round64_sums:
  "round64 9007199254740994 = 9007199254740994"
  "round64 9007199254740993 = 9007199254740992"
  "round64 81129638414606681695789005144065 = 81129638414606681695789005144064"
proof -
  show "round64 9007199254740994 = 9007199254740994"
    using round64_unique [of 53 9007199254740994 "2 ^ 52 + 1"]
    by (simp add: powr_values_more)
  have "round_half_even (9007199254740993 / 2) = 4503599627370496"
    by (simp add: round_half_even_def Let_def)
  then show "round64 9007199254740993 = 9007199254740992"
    using round64_value [of 53 9007199254740993 "2 ^ 52"]
    by (simp add: powr_values_more)
  show "round64 81129638414606681695789005144065 = 81129638414606681695789005144064"
    using round64_unique [of 106 81129638414606681695789005144065 "2 ^ 52"]
    by (simp add: powr_values_more)
qed

lemma round64_roots:
  "round64 (sqrt 4) = 2"
  "round64 (sqrt 8) = 2 * sqrt2_b64"
  "round64 (sqrt 81129638414606681695789005144064) = 9007199254740992"
proof -
  have "sqrt 4 = 2" by (rule real_sqrt_unique) simp_all
  then show "round64 (sqrt 4) = 2" by (simp add: round64_2)
  have "sqrt 8 = 2 * sqrt 2"
    by (rule real_sqrt_unique) (simp_all add: power2_eq_square)
  then show "round64 (sqrt 8) = 2 * sqrt2_b64"
    by (simp add: round64_double round64_sqrt_2)
  have "sqrt 81129638414606681695789005144064 = 9007199254740992"
    by (rule real_sqrt_unique) simp_all
  then show "round64 (sqrt 81129638414606681695789005144064) = 9007199254740992"
    by (simp add: round64_powers)
qed

lemma round64_quotients:
  "round64 (1 / 2) = 1 / 2"
  "round64 (4503599627370497 / 9007199254740992) = 4503599627370497 / 9007199254740992"
  "round64 (sqrt2_b64 * (2 * sqrt2_b64)) = 2 * above_two"
proof -
  show "round64 (1 / 2) = 1 / 2"
    using round64_unique [of "- 1" "1/2" "2 ^ 52"]
    by (simp add: powr_values)
  show "round64 (4503599627370497 / 9007199254740992) = 4503599627370497 / 9007199254740992"
    using round64_unique [of "- 1" "4503599627370497 / 9007199254740992" "2 ^ 52 + 1"]
    by (simp add: powr_values)
  have "sqrt2_b64 * (2 * sqrt2_b64) = 2 * (sqrt2_b64 * sqrt2_b64)" by simp
  then show "round64 (sqrt2_b64 * (2 * sqrt2_b64)) = 2 * above_two"
    by (simp only: round64_double round64_square_sqrt_2)
qed

lemma binary64_order_literals:
  "float_of (binary64_order ord) ''0'' = Some 0"
  "float_of (binary64_order ord) ''1'' = Some 1"
  "float_of (binary64_order ord) ''2'' = Some 2"
  "float_of (binary64_order ord) ''9007199254740992'' = Some 9007199254740992"
  by (simp_all add: binary64_order_def decimal_literal_def digit_value_def round64_0 round64_1
      round64_2 round64_powers)

lemma binary64_order_parse:
  "parse_preferences (binary64_order ord) ''a:9007199254740992,c:1,f:1,b:0'' =
     Inr [(''a'', 9007199254740992), (''c'', 1), (''f'', 1), (''b'', 0)]"
  "parse_preferences (binary64_order ord) ''f:1,c:1,a:1,d:1'' =
     Inr [(''f'', 1), (''c'', 1), (''a'', 1), (''d'', 1)]"
  "parse_preferences (binary64_order ord) ''a:1,b:1'' = Inr [(''a'', 1), (''b'', 1)]"
  "parse_preferences (binary64_order ord) ''a:2,b:2'' = Inr [(''a'', 2), (''b'', 2)]"
  by (simp_all add: parse_preferences_def split_first_def binary64_order_literals)

lemma binary64_order_ops:
  "fmul (binary64_order ord) 1 1 = 1"
  "fmul (binary64_order ord) 1 2 = 2"
  "fmul (binary64_order ord) 9007199254740992 1 = 9007199254740992"
  "fmul (binary64_order ord) 1 9007199254740992 = 9007199254740992"
  "fmul (binary64_order ord) 9007199254740992 2 = 18014398509481984"
  "fmul (binary64_order ord) 2 9007199254740992 = 18014398509481984"
  "fmul (binary64_order ord) sqrt2_b64 (2 * sqrt2_b64) = 2 * above_two"
  "fpow2 (binary64_order ord) 0 = 0"
  "fpow2 (binary64_order ord) 1 = 1"
  "fpow2 (binary64_order ord) 2 = 4"
  "fpow2 (binary64_order ord) 9007199254740992 = 81129638414606681695789005144064"
  "fadd (binary64_order ord) 0 1 = 1"
  "fadd (binary64_order ord) 1 1 = 2"
  "fadd (binary64_order ord) 2 1 = 3"
  "fadd (binary64_order ord) 3 1 = 4"
  "fadd (binary64_order ord) 0 2 = 2"
  "fadd (binary64_order ord) 2 2 = 4"
  "fadd (binary64_order ord) 0 4 = 4"
  "fadd (binary64_order ord) 4 4 = 8"
  "fadd (binary64_order ord) 2 9007199254740992 = 9007199254740994"
  "fadd (binary64_order ord) 0 9007199254740992 = 9007199254740992"
  "fadd (binary64_order ord) 9007199254740992 1 = 9007199254740992"
  "fadd (binary64_order ord) 0 81129638414606681695789005144064 =
     81129638414606681695789005144064"
  "fadd (binary64_order ord) 81129638414606681695789005144064 1 =
     81129638414606681695789005144064"
  "fadd (binary64_order ord) 81129638414606681695789005144064 0 =
     81129638414606681695789005144064"
  "fpow_half (binary64_order ord) 2 = sqrt2_b64"
  "fpow_half (binary64_order ord) 4 = 2"
  "fpow_half (binary64_order ord) 8 = 2 * sqrt2_b64"
  "fpow_half (binary64_order ord) 81129638414606681695789005144064 = 9007199254740992"
  by (simp_all add: binary64_order_def fmul_def fpow2_def fadd_def fpow_half_def
      round64_0 round64_1 round64_2 round64_3 round64_powers round64_sums round64_roots
      round64_sqrt_2 round64_quotients)

lemma binary64_order_quotients:
  "fdiv (binary64_order ord) 9007199254740994 18014398509481984 = Inr (1/2 + 1 / 2 ^ 53)"
  "fdiv (binary64_order ord) 9007199254740992 18014398509481984 = Inr (1/2)"
  "fdiv (binary64_order ord) 4 (2 * above_two) = Inr below_one"
proof -
  have "2 * above_two \<noteq> 0" by (simp add: above_two_def)
  then show "fdiv (binary64_order ord) 4 (2 * above_two) = Inr below_one"
    by (simp add: fdiv_def binary64_order_def round64_quotient_2)
  show "fdiv (binary64_order ord) 9007199254740994 18014398509481984 = Inr (1/2 + 1 / 2 ^ 53)"
    "fdiv (binary64_order ord) 9007199254740992 18014398509481984 = Inr (1/2)"
    by (simp_all add: fdiv_def binary64_order_def round64_quotients)
qed

lemmas similarity_eval = calculate_user_similarity_def no_preferences_def
  preference_string_def example_user_def binary64_order_parse dot_product_def magnitude_def
  getitem_def fsum_def binary64_order_ops binary64_order_quotients binary64_order_fields
  binary64_quotients

lemma skewed_level_similarity:
  "calculate_user_similarity binary64_seed0 skewed_user level_user = Inr (1/2 + 1 / 2 ^ 53)"
  "calculate_user_similarity binary64_seed0 level_user skewed_user = Inr (1/2)"
  "calculate_user_similarity binary64 skewed_user level_user = Inr (1/2)"
  "calculate_user_similarity binary64 level_user skewed_user = Inr (1/2 + 1 / 2 ^ 53)"
  unfolding binary64_def binary64_seed0_def skewed_user_def level_user_def
  by (simp_all add: similarity_eval common_categories_first common_categories_second)


lemma binary64_order_preference_maps:
  "user_preference_map (binary64_order ord) skewed_user =
     Inr [(''a'', 9007199254740992), (''c'', 1), (''f'', 1), (''b'', 0)]"
  "user_preference_map (binary64_order ord) level_user =
     Inr [(''f'', 1), (''c'', 1), (''a'', 1), (''d'', 1)]"
  "user_preference_map (binary64_order ord) (example_user 1 (Some ''a:1,b:1'')) =
     Inr [(''a'', 1), (''b'', 1)]"
  "user_preference_map (binary64_order ord) doubled_user = Inr [(''a'', 2), (''b'', 2)]"
  by (simp_all add: user_preference_map_def no_preferences_def preference_string_def
      example_user_def skewed_user_def level_user_def doubled_user_def binary64_order_parse)

lemma skewed_level_norms:
  "dom (map_of [(''a'', 9007199254740992::real), (''c'', 1), (''f'', 1), (''b'', 0)])
     \<inter> dom (map_of [(''f'', 1::real), (''c'', 1), (''a'', 1), (''d'', 1)]) \<noteq> {}"
  "norm_spec (map_of [(''a'', 9007199254740992), (''c'', 1), (''f'', 1), (''b'', 0)]) \<noteq> 0"
  "norm_spec (map_of [(''f'', 1), (''c'', 1), (''a'', 1), (''d'', 1)]) \<noteq> 0"
proof -
  show "dom (map_of [(''a'', 9007199254740992::real), (''c'', 1), (''f'', 1), (''b'', 0)])
     \<inter> dom (map_of [(''f'', 1::real), (''c'', 1), (''a'', 1), (''d'', 1)]) \<noteq> {}"
    by auto
  have "dom (map_of [(''a'', 9007199254740992::real), (''c'', 1), (''f'', 1), (''b'', 0)]) =
      {''a'', ''c'', ''f'', ''b''}"
    by auto
  then show
    "norm_spec (map_of [(''a'', 9007199254740992), (''c'', 1), (''f'', 1), (''b'', 0)]) \<noteq> 0"
    by (simp add: norm_spec_def)
  have "dom (map_of [(''f'', 1::real), (''c'', 1), (''a'', 1), (''d'', 1)]) =
      {''f'', ''c'', ''a'', ''d''}"
    by auto
  then show "norm_spec (map_of [(''f'', 1), (''c'', 1), (''a'', 1), (''d'', 1)]) \<noteq> 0"
    by (simp add: norm_spec_def)
qed



text \<open>
  C7 as stated fails in binary64 arithmetic: the sum of the products over the shared
  categories depends on the order in which they are taken, and the two calls take them
  in different orders. With the scores \<open>a: 2 ^ 53, c: 1, f: 1\<close> against \<open>1, 1, 1\<close>,
  the order \<open>f, c, a\<close> gives \<open>(1 + 1) + 2 ^ 53 = 2 ^ 53 + 2\<close> and the similarity
  \<open>0.5000000000000001\<close>, the order \<open>a, c, f\<close> gives \<open>(2 ^ 53 + 1) + 1 = 2 ^ 53\<close>
  and the similarity \<open>0.5\<close>. This holds when the shared categories come in the order
  of the second dict, and when they come in the order of the first.
\<close>

theorem similarity_asymmetric_binary64_counterexample:
  "user_preference_map binary64_seed0 skewed_user =
     Inr [(''a'', 9007199254740992), (''c'', 1), (''f'', 1), (''b'', 0)]
   \<and> user_preference_map binary64_seed0 level_user =
       Inr [(''f'', 1), (''c'', 1), (''a'', 1), (''d'', 1)]
   \<and> dom (map_of [(''a'', 9007199254740992::real), (''c'', 1), (''f'', 1), (''b'', 0)])
       \<inter> dom (map_of [(''f'', 1::real), (''c'', 1), (''a'', 1), (''d'', 1)]) \<noteq> {}
   \<and> norm_spec (map_of [(''a'', 9007199254740992), (''c'', 1), (''f'', 1), (''b'', 0)]) \<noteq> 0
   \<and> norm_spec (map_of [(''f'', 1), (''c'', 1), (''a'', 1), (''d'', 1)]) \<noteq> 0
   \<and> calculate_user_similarity binary64_seed0 skewed_user level_user = Inr (1/2 + 1 / 2 ^ 53)
   \<and> calculate_user_similarity binary64_seed0 level_user skewed_user = Inr (1/2)
   \<and> calculate_user_similarity binary64 skewed_user level_user = Inr (1/2)
   \<and> calculate_user_similarity binary64 level_user skewed_user = Inr (1/2 + 1 / 2 ^ 53)"
  using binary64_order_preference_maps(1,2) [of second_operand_order] skewed_level_norms
    skewed_level_similarity
  by (simp only: binary64_seed0_def simp_thms)

subsection \<open>Entries whose rounded scores are equal\<close>

lemma sqrt_643204: "sqrt 643204 = 802"
  by (rule real_sqrt_unique) simp_all

lemma tie_similarity_2:
  "calculate_user_similarity exact_decimal (example_user 1 (Some ''a:1''))
     (example_user 2 (Some ''a:80,b:798'')) = Inr (40/401)"
  by (simp add: eval_defs sqrt_643204)

lemma tie_similarity_3:
  "calculate_user_similarity exact_decimal (example_user 1 (Some ''a:1''))
     (example_user 3 None) = Inr (1/10)"
  by (simp add: eval_defs)

lemma py_round3_tie:
  "py_round3 exact_decimal (40/401) = 1/10"
  "py_round3 exact_decimal (1/10) = 1/10"
proof -
  have "round_half_even (40000 / 401) = 100"
    by (rule round_half_even_unique) simp_all
  then show "py_round3 exact_decimal (40/401) = 1/10"
    by (simp add: py_round3_def exact_decimal_def exact_def)
  have "round_half_even 100 = 100"
    using round_half_even_of_int [of 100] by simp
  then show "py_round3 exact_decimal (1/10) = 1/10"
    by (simp add: py_round3_def exact_decimal_def exact_def)
qed

lemma tie_collaborative:
  "generate_collaborative_recommendations exact_decimal tie_population 1 =
       Inr [\<lparr>rec_type = ''user_connection'', rec_user_id = 3, rec_user_name = ''user'',
             rec_user_email = ''user@example.org'', similarity_score = 1/10,
             rec_reason = ''Similar interests and interaction patterns''\<rparr>,
            \<lparr>rec_type = ''user_connection'', rec_user_id = 2, rec_user_name = ''user'',
             rec_user_email = ''user@example.org'', similarity_score = 1/10,
             rec_reason = ''Similar interests and interaction patterns''\<rparr>]"
proof -
  let ?sim = "\<lambda>u. if uid u = 2 then 40/401 else (1/10 :: real)"
  have "\<And>u. u \<in> set tie_population \<Longrightarrow> uid u \<noteq> 1 \<Longrightarrow>
      calculate_user_similarity exact_decimal (example_user 1 (Some ''a:1'')) u = Inr (?sim u)"
    unfolding tie_population_def
    using tie_similarity_2 tie_similarity_3 by (auto simp: example_user_def)
  then have "similarities_of exact_decimal (example_user 1 (Some ''a:1'')) 1 tie_population =
      Inr (map (\<lambda>u. (u, ?sim u)) (filter (\<lambda>u. uid u \<noteq> 1) tie_population))"
    by (rule similarities_of_total)
  then show ?thesis
    by (simp add: generate_collaborative_recommendations_def tie_population_def
        example_user_def sort_reverse_def user_connection_def py_round3_tie)
qed

lemma round64_integers:
  "round64 80 = 80"
  "round64 798 = 798"
  "round64 802 = 802"
  "round64 6400 = 6400"
  "round64 636804 = 636804"
  "round64 643204 = 643204"
  using round64_unique [of 6 80 "80 * 2 ^ 46"] round64_unique [of 9 798 "798 * 2 ^ 43"]
    round64_unique [of 9 802 "802 * 2 ^ 43"] round64_unique [of 12 6400 "6400 * 2 ^ 40"]
    round64_unique [of 19 636804 "636804 * 2 ^ 33"]
    round64_unique [of 19 643204 "643204 * 2 ^ 33"]
  by (simp_all add: powr_minus_divide)

lemma round64_tenth_bounds:
  "round64 (40/401) < round64 (1/10)"
  "round_half_even (round64 (40/401) * 1000) = 100"
  "round_half_even (round64 (1/10) * 1000) = 100"
proof -
  have q: "40/401 * (1 - 1 / 2 ^ 53) \<le> round64 (40/401)"
    "round64 (40/401) \<le> 40/401 * (1 + 1 / 2 ^ 53)"
    using accurate_bounds [OF round64_accurate, of "40/401"] by simp_all
  have t: "1/10 * (1 - 1 / 2 ^ 53) \<le> round64 (1/10)"
    "round64 (1/10) \<le> 1/10 * (1 + 1 / 2 ^ 53)"
    using accurate_bounds [OF round64_accurate, of "1/10"] by simp_all
  show "round64 (40/401) < round64 (1/10)"
    using q(2) t(1) by simp
  show "round_half_even (round64 (40/401) * 1000) = 100"
    using q by (intro round_half_even_unique) simp_all
  show "round_half_even (round64 (1/10) * 1000) = 100"
    using t by (intro round_half_even_unique) simp_all
qed

lemma binary64_tie_parse:
  "parse_preferences binary64 ''a:1'' = Inr [(''a'', 1)]"
  "parse_preferences binary64 ''a:80,b:798'' = Inr [(''a'', 80), (''b'', 798)]"
  by (simp_all add: parse_preferences_def split_first_def binary64_def binary64_order_def
      decimal_literal_def digit_value_def round64_1 round64_integers)

lemma binary64_tie_similarity_2:
  "calculate_user_similarity binary64 (example_user 1 (Some ''a:1''))
     (example_user 2 (Some ''a:80,b:798'')) = Inr (round64 (40/401))"
  by (simp add: calculate_user_similarity_def no_preferences_def preference_string_def
      example_user_def binary64_tie_parse common_categories_first set_order_values
      dot_product_def magnitude_def getitem_def fsum_def)
    (simp add: binary64_def binary64_order_def fmul_def fadd_def fpow2_def fpow_half_def
      fdiv_def round64_1 round64_integers sqrt_643204)

lemma binary64_tie_similarity_3:
  "calculate_user_similarity binary64 (example_user 1 (Some ''a:1''))
     (example_user 3 None) = Inr (round64 (1/10))"
  by (simp add: calculate_user_similarity_def no_preferences_def example_user_def flit_def
      binary64_def binary64_order_def)

lemma binary64_py_round3_tie:
  "py_round3 binary64 (round64 (40/401)) = round64 (1/10)"
  "py_round3 binary64 (round64 (1/10)) = round64 (1/10)"
  by (simp_all add: py_round3_def binary64_def binary64_order_def round64_tenth_bounds)

lemma binary64_tie_collaborative:
  "generate_collaborative_recommendations binary64 tie_population 1 =
       Inr [\<lparr>rec_type = ''user_connection'', rec_user_id = 3, rec_user_name = ''user'',
             rec_user_email = ''user@example.org'', similarity_score = round64 (1/10),
             rec_reason = ''Similar interests and interaction patterns''\<rparr>,
            \<lparr>rec_type = ''user_connection'', rec_user_id = 2, rec_user_name = ''user'',
             rec_user_email = ''user@example.org'', similarity_score = round64 (1/10),
             rec_reason = ''Similar interests and interaction patterns''\<rparr>]"
proof -
  let ?sim = "\<lambda>u. if uid u = 2 then round64 (40/401) else round64 (1/10)"
  have "\<And>u. u \<in> set tie_population \<Longrightarrow> uid u \<noteq> 1 \<Longrightarrow>
      calculate_user_similarity binary64 (example_user 1 (Some ''a:1'')) u = Inr (?sim u)"
    unfolding tie_population_def
    using binary64_tie_similarity_2 binary64_tie_similarity_3 by (auto simp: example_user_def)
  then have "similarities_of binary64 (example_user 1 (Some ''a:1'')) 1 tie_population =
      Inr (map (\<lambda>u. (u, ?sim u)) (filter (\<lambda>u. uid u \<noteq> 1) tie_population))"
    by (rule similarities_of_total)
  then show ?thesis
    using round64_tenth_bounds(1)
    by (simp add: generate_collaborative_recommendations_def tie_population_def
        example_user_def sort_reverse_def user_connection_def binary64_py_round3_tie)
qed

text \<open>
  C3 as stated fails on the returned scores: the list is sorted on the similarities
  before they are rounded to 3 decimals. For the target \<open>1\<close> of the population
  \<open>1: a:1\<close>, \<open>2: a:80,b:798\<close>, \<open>3:\<close> no preferences, the similarity to user \<open>2\<close>
  is \<open>80 / 802 = 0.09975...\<close> and that to user \<open>3\<close> is the floor \<open>0.1\<close>: user \<open>3\<close>
  comes first, and both entries have the similarity score \<open>0.1\<close>, although user \<open>2\<close>
  precedes user \<open>3\<close> in the population. This holds in exact and in binary64
  arithmetic.
\<close>

theorem collaborative_rounded_tie_counterexample:
  "map uid tie_population = [1, 2, 3]
   \<and> generate_collaborative_recommendations exact_decimal tie_population 1 =
       Inr [\<lparr>rec_type = ''user_connection'', rec_user_id = 3, rec_user_name = ''user'',
             rec_user_email = ''user@example.org'', similarity_score = 1/10,
             rec_reason = ''Similar interests and interaction patterns''\<rparr>,
            \<lparr>rec_type = ''user_connection'', rec_user_id = 2, rec_user_name = ''user'',
             rec_user_email = ''user@example.org'', similarity_score = 1/10,
             rec_reason = ''Similar interests and interaction patterns''\<rparr>]
   \<and> generate_collaborative_recommendations binary64 tie_population 1 =
       Inr [\<lparr>rec_type = ''user_connection'', rec_user_id = 3, rec_user_name = ''user'',
             rec_user_email = ''user@example.org'', similarity_score = round64 (1/10),
             rec_reason = ''Similar interests and interaction patterns''\<rparr>,
            \<lparr>rec_type = ''user_connection'', rec_user_id = 2, rec_user_name = ''user'',
             rec_user_email = ''user@example.org'', similarity_score = round64 (1/10),
             rec_reason = ''Similar interests and interaction patterns''\<rparr>]"
  using tie_collaborative binary64_tie_collaborative
  by (simp add: tie_population_def example_user_def)

end
